theory Spec2Isabelle
  imports Main
begin

section \<open>Values exchanged with the wallet and the ledger\<close>

text \<open>
  The component of \<^verbatim>\<open>src/App.tsx\<close> talks to two external parties: the injected wallet
  (\<^verbatim>\<open>window.ethereum.request\<close>) and the ledger contract reached through an ethers
  provider / contract object. Every \<^verbatim>\<open>await\<close> on one of them either yields a value or
  throws; a thrown value carries the numeric \<^verbatim>\<open>code\<close> the source inspects and a message.
\<close>

datatype js_error = JsError (err_code: "int option") (err_message: string)

text \<open>The tuple returned by the contract's \<^verbatim>\<open>items(uint256)\<close> getter (ABI in lines 24-36).\<close>

record raw_item =
  raw_id :: nat
  raw_seller :: string
  raw_name :: string
  raw_price :: nat
  raw_sold :: bool

datatype jsval =
    VStr string
  | VStrs "string list"
  | VBig nat
  | VItem raw_item
  | VTx nat
  | VUnit

datatype reply = Throw js_error | Ok jsval

text \<open>The parameter object of \<^verbatim>\<open>wallet_addEthereumChain\<close> (lines 112-120).\<close>

record chain_descriptor =
  chainId :: string
  chainName :: string
  currencyName :: string
  currencySymbol :: string
  currencyDecimals :: nat
  rpcUrls :: "string list"
  blockExplorerUrls :: "string list"

text \<open>
  Provider and contract objects are created with \<^verbatim>\<open>new\<close>; the model names each object by
  the number it was allocated under, so that two objects created at different times differ,
  as they do for React's change detection.
\<close>

type_synonym handle = nat

datatype request =
    Eth_chainId
  | Wallet_switchEthereumChain string
  | Wallet_addEthereumChain chain_descriptor
  | Eth_requestAccounts
  | Eth_accounts
  | GetBalance handle string
  | ItemCount handle
  | Items handle nat
  | ListItem handle string int
  | BuyItem handle nat int
  | TxWait nat

datatype notice =
    Alert string
  | AlertError string js_error
  | ConsoleError string
  | SetTimeout nat

datatype event = Req request | Note notice

section \<open>The component state\<close>

text \<open>The \<^verbatim>\<open>Item\<close> interface (lines 56-62); \<^verbatim>\<open>price\<close> is the display decimal text.\<close>

record item =
  item_id :: nat
  item_seller :: string
  item_name :: string
  item_price :: string
  item_sold :: bool

text \<open>
  The text shown as contract balance is either a literal (the initial \<^verbatim>\<open>"0.0"\<close>) or
  \<^verbatim>\<open>Number(t).toFixed(6)\<close> for a decimal text \<open>t\<close>. The latter goes through a
  double-precision number; it is kept symbolic as \<open>Fixed6 t\<close>.
\<close>

datatype balance_text = Plain string | Fixed6 string

text \<open>
  The \<^verbatim>\<open>useState\<close> cells of lines 65-73, together with the allocation counter \<open>heap\<close>
  that numbers the objects created by \<^verbatim>\<open>new\<close>.
\<close>

record store =
  account :: "string option"
  provider :: "handle option"
  contract :: "handle option"
  items :: "item list"
  loading :: bool
  itemName :: string
  itemPrice :: string
  contractBalance :: balance_text
  heap :: nat

definition init_store :: store where
  "init_store = \<lparr> account = None, provider = None, contract = None, items = [],
     loading = False, itemName = [], itemPrice = [], contractBalance = Plain ''0.0'',
     heap = 0 \<rparr>"

definition contractAddress :: string where
  "contractAddress = ''0x8b53744F48E8FD46773E646c0AF093dd1d02898b''"

definition targetChainId :: string where
  "targetChainId = ''0x1f90''"

definition liberty :: chain_descriptor where
  "liberty = \<lparr> chainId = ''0x1f90'', chainName = ''Shardeum Liberty 1.X'',
     currencyName = ''SHM'', currencySymbol = ''SHM'', currencyDecimals = 18,
     rpcUrls = [''https://liberty10.shardeum.org/''],
     blockExplorerUrls = [''https://explorer-liberty10.shardeum.org/''] \<rparr>"

text \<open>JavaScript truthiness of a nullable string: \<^verbatim>\<open>null\<close>, \<^verbatim>\<open>undefined\<close> and \<^verbatim>\<open>""\<close> are falsy.\<close>

definition truthy :: "string option \<Rightarrow> bool" where
  "truthy v = (case v of None \<Rightarrow> False | Some t \<Rightarrow> t \<noteq> [])"

section \<open>Number conversion\<close>

text \<open>
  The component converts numbers only through functions of the ethers library
  (\<^verbatim>\<open>BigNumber.toNumber\<close>, \<^verbatim>\<open>ethers.utils.formatEther\<close>, \<^verbatim>\<open>ethers.utils.parseEther\<close>),
  which is not part of the source tree. This section models them.
\<close>

text \<open>
  Modelled from the spec: \<^verbatim>\<open>BigNumber.toNumber()\<close>, by which the item count and the ids
  are read as integers. A JavaScript number holds an integer exactly up to 53 bits; the
  conversion throws on a larger value.
\<close>

definition toNumber :: "nat \<Rightarrow> nat option" where
  "toNumber n = (if n < 2 ^ 53 then Some n else None)"

definition digit_char :: "nat \<Rightarrow> char" where
  "digit_char d = char_of (48 + d)"

definition digit_val :: "char \<Rightarrow> nat" where
  "digit_val c = of_char c - 48"

definition is_digit :: "char \<Rightarrow> bool" where
  "is_digit c = (48 \<le> (of_char c :: nat) \<and> (of_char c :: nat) \<le> 57)"

text \<open>The decimal digits of a number, most significant first (\<^verbatim>\<open>BigNumber.toString()\<close>).\<close>

function decimal :: "nat \<Rightarrow> string" where
  "decimal n = (if n < 10 then [digit_char n] else decimal (n div 10) @ [digit_char (n mod 10)])"
  by pat_completeness auto
termination
  by (relation "measure (\<lambda>n. n)") auto

declare decimal.simps [simp del]

text \<open>The number written by a text of decimal digits (\<^verbatim>\<open>BigNumber.from(s)\<close>).\<close>

definition from_decimal :: "string \<Rightarrow> nat" where
  "from_decimal t = foldl (\<lambda>a c. 10 * a + digit_val c) 0 t"

definition strip_trailing_zeros :: "string \<Rightarrow> string" where
  "strip_trailing_zeros t = rev (dropWhile (\<lambda>c. c = CHR ''0'') (rev t))"

definition pad_left :: "nat \<Rightarrow> string \<Rightarrow> string" where
  "pad_left n t = replicate (n - length t) CHR ''0'' @ t"

definition pad_right :: "nat \<Rightarrow> string \<Rightarrow> string" where
  "pad_right n t = t @ replicate (n - length t) CHR ''0''"

text \<open>\<^verbatim>\<open>String.prototype.split(".")\<close>.\<close>

fun split_dot :: "string \<Rightarrow> string list" where
  "split_dot [] = [[]]"
| "split_dot (c # cs) =
     (if c = CHR ''.'' then [] # split_dot cs
      else (case split_dot cs of [] \<Rightarrow> [[c]] | x # xs \<Rightarrow> (c # x) # xs))"

text \<open>
  Modelled from the spec: \<^verbatim>\<open>ethers.utils.formatEther\<close>, the conversion of a native
  smallest-unit integer to the display decimal, in exact fixed-point arithmetic with 18
  decimals and never in floating point. It writes the whole part, a dot, and the 18
  fraction digits without their trailing zeros, keeping at least one digit.
\<close>

definition formatEther :: "nat \<Rightarrow> string" where
  "formatEther wei =
     (let fraction = strip_trailing_zeros (pad_left 18 (decimal (wei mod 10 ^ 18)));
          whole = decimal (wei div 10 ^ 18)
      in whole @ ''.'' @ (if fraction = [] then ''0'' else fraction))"

text \<open>
  Modelled from the spec: the unsigned part of \<^verbatim>\<open>ethers.utils.parseEther\<close>, the exact
  conversion of a display decimal to the native smallest-unit integer. The text is split
  at the dot; a missing whole or fraction part counts as zero; trailing zeros of the
  fraction are dropped and at most 18 fraction digits may remain.
\<close>

definition parse_unsigned :: "string \<Rightarrow> js_error + nat" where
  "parse_unsigned t =
     (if t = ''.'' then Inl (JsError None ''missing value'')
      else
        (let comps = split_dot t in
         if length comps > 2 then Inl (JsError None ''too many decimal points'')
         else
           (let whole = (if hd comps = [] then ''0'' else hd comps);
                fraction0 = (if length comps < 2 \<or> comps ! 1 = [] then ''0'' else comps ! 1);
                fraction1 = strip_trailing_zeros fraction0
            in if length fraction1 > 18
               then Inl (JsError None ''fractional component exceeds decimals'')
               else
                 (let fraction2 = (if fraction1 = [] then ''0'' else fraction1);
                      fraction = pad_right 18 fraction2
                  in Inr (from_decimal whole * 10 ^ 18 + from_decimal fraction)))))"

text \<open>
  Modelled from the spec: \<^verbatim>\<open>ethers.utils.parseEther\<close>. It accepts a text of digits and
  dots with an optional leading minus sign and throws on any other text.
\<close>

definition parseEther :: "string \<Rightarrow> js_error + int" where
  "parseEther t =
     (let negative = (t \<noteq> [] \<and> hd t = CHR ''-'');
          body = (if negative then tl t else t)
      in if body = [] \<or> \<not> list_all (\<lambda>c. is_digit c \<or> c = CHR ''.'') body
         then Inl (JsError None ''invalid decimal value'')
         else (case parse_unsigned body of
                 Inl e \<Rightarrow> Inl e
               | Inr wei \<Rightarrow> Inr (if negative then - int wei else int wei)))"

section \<open>Asynchronous handlers as programs with suspension points\<close>

text \<open>
  An \<^verbatim>\<open>async\<close> function runs without interruption up to its next \<^verbatim>\<open>await\<close> on an external
  request, where it is suspended until the reply arrives. A handler is therefore a tree:
  \<open>Upd\<close> is a state setter call, \<open>Say\<close> an alert, console message or timer registration,
  \<open>New\<close> an object creation, and \<open>Await q k\<close> issues the request \<open>q\<close> and continues with
  \<open>k r\<close> on the reply \<open>r\<close>. The values a handler reads from the component state are those of
  the render that created it (its closure); they are a parameter \<open>cl\<close> of the handler.
\<close>

datatype prog =
    Done
  | Upd "store \<Rightarrow> store" prog
  | Say notice prog
  | New "handle \<Rightarrow> prog"
  | Await request "reply \<Rightarrow> prog"

text \<open>
  \<open>exec p rs s tr\<close> runs \<open>p\<close> from the state \<open>s\<close>, answering its requests with the replies
  \<open>rs\<close> in order. It returns the state reached, the requests and notices issued (appended to
  \<open>tr\<close>), and what is left of the program: \<open>Done\<close>, or the program suspended at a request
  that has no reply yet.
\<close>

primrec exec :: "prog \<Rightarrow> reply list \<Rightarrow> store \<Rightarrow> event list \<Rightarrow> store \<times> event list \<times> prog" where
  "exec Done rs s tr = (s, tr, Done)"
| "exec (Upd f p) rs s tr = exec p rs (f s) tr"
| "exec (Say a p) rs s tr = exec p rs s (tr @ [Note a])"
| "exec (New k) rs s tr = exec (k (heap s)) rs (s\<lparr>heap := Suc (heap s)\<rparr>) tr"
| "exec (Await q k) rs s tr =
     (case rs of
        [] \<Rightarrow> (s, tr @ [Req q], Await q k)
      | r # rs' \<Rightarrow> exec (k r) rs' s (tr @ [Req q]))"

section \<open>The handlers of \<^verbatim>\<open>App.tsx\<close>\<close>

text \<open>
  Each handler takes the continuation \<open>k\<close> that runs once its promise resolves. None of
  \<^verbatim>\<open>fetchContractBalance\<close>, \<^verbatim>\<open>loadItems\<close> and \<^verbatim>\<open>setupProviderAndContract\<close> rejects:
  the first two catch every error themselves. The ethers provider and contract objects
  decode what they return, so a balance or a count is a big number, a listing a tuple and
  a submission a transaction; a reply of another shape to one of their calls is taken as a
  thrown \<^verbatim>\<open>TypeError\<close>, which goes to the same \<^verbatim>\<open>catch\<close> branch as a thrown reply.
  The wallet hands its JSON answer over as it is, and the handlers read it as the code
  does.
\<close>

definition type_error :: js_error where
  "type_error = JsError None ''TypeError''"

text \<open>\<^verbatim>\<open>fetchContractBalance\<close> (lines 141-152); \<open>prov\<close> is the optional argument.\<close>

definition fetchContractBalance :: "handle option \<Rightarrow> store \<Rightarrow> prog \<Rightarrow> prog" where
  "fetchContractBalance prov cl k =
     (case (if prov \<noteq> None then prov else provider cl) of
        None \<Rightarrow> k
      | Some p \<Rightarrow>
          Await (GetBalance p contractAddress) (\<lambda>r.
            case r of
              Ok (VBig balanceBN) \<Rightarrow>
                Upd (\<lambda>s. s\<lparr>contractBalance := Fixed6 (formatEther balanceBN)\<rparr>) k
            | _ \<Rightarrow> Say (ConsoleError ''fetchContractBalance error:'') k))"

text \<open>\<^verbatim>\<open>setupProviderAndContract\<close> (lines 76-89); \<open>eth\<close> says whether \<^verbatim>\<open>window.ethereum\<close> exists.\<close>

definition setupProviderAndContract :: "bool \<Rightarrow> store \<Rightarrow> string option \<Rightarrow> prog \<Rightarrow> prog" where
  "setupProviderAndContract eth cl selectedAccount k =
     (if \<not> eth then k
      else
        New (\<lambda>prov.
          Upd (\<lambda>s. s\<lparr>provider := Some prov\<rparr>)
            (New (\<lambda>contractInstance.
               Upd (\<lambda>s. s\<lparr>contract := Some contractInstance\<rparr>)
                 ((if truthy selectedAccount
                   then Upd (\<lambda>s. s\<lparr>account := selectedAccount\<rparr>) else (\<lambda>p. p))
                    (fetchContractBalance (Some prov) cl k))))))"

text \<open>
  The network part of \<^verbatim>\<open>connectWallet\<close> (lines 97-127): \<open>k\<close> is the rest of the
  \<^verbatim>\<open>try\<close> block, \<open>kf\<close> the \<^verbatim>\<open>catch\<close> block of line 135.
\<close>

definition ensureNetwork :: "prog \<Rightarrow> prog \<Rightarrow> prog" where
  "ensureNetwork k kf =
     Await Eth_chainId (\<lambda>r.
       case r of
         Throw err \<Rightarrow> kf
       | Ok currentChainId \<Rightarrow>
           if currentChainId \<noteq> VStr targetChainId then
             Await (Wallet_switchEthereumChain targetChainId) (\<lambda>r.
               case r of
                 Ok _ \<Rightarrow> k
               | Throw switchError \<Rightarrow>
                   if err_code switchError = Some 4902 then
                     Await (Wallet_addEthereumChain liberty) (\<lambda>r.
                       case r of Ok _ \<Rightarrow> k | Throw err \<Rightarrow> kf)
                   else kf)
           else k)"

text \<open>
  What \<^verbatim>\<open>connectWallet\<close> and \<^verbatim>\<open>init\<close> read of the reply to an account request:
  \<^verbatim>\<open>accounts.length\<close> and \<^verbatim>\<open>accounts[0]\<close>. A list of texts has its length and its first
  text; a single text has the number of its characters and its first character. The other
  values have no \<^verbatim>\<open>length\<close> (the wallet answers in JSON, so the tuple of a contract read
  does not occur here and is counted among them); reading the property of \<^verbatim>\<open>undefined\<close>
  throws.
\<close>

datatype js_property = Throws | Undefined | Defined nat

definition accounts_length :: "jsval \<Rightarrow> js_property" where
  "accounts_length v =
     (case v of
        VStrs accounts \<Rightarrow> Defined (length accounts)
      | VStr t \<Rightarrow> Defined (length t)
      | VUnit \<Rightarrow> Throws
      | _ \<Rightarrow> Undefined)"

definition accounts_first :: "jsval \<Rightarrow> string" where
  "accounts_first v = (case v of VStrs accounts \<Rightarrow> hd accounts | VStr t \<Rightarrow> [hd t] | _ \<Rightarrow> [])"

text \<open>\<^verbatim>\<open>connectWallet\<close> (lines 91-139).\<close>

definition connect_failed :: prog where
  "connect_failed =
     Say (ConsoleError ''connectWallet error:'') (Say (Alert ''Connection rejected or failed.'') Done)"

definition connectWallet :: "bool \<Rightarrow> store \<Rightarrow> prog" where
  "connectWallet eth cl =
     (if \<not> eth then Say (Alert ''MetaMask not detected. Please install MetaMask.'') Done
      else
        ensureNetwork
          (Await Eth_requestAccounts (\<lambda>r.
             case r of
               Throw err \<Rightarrow> connect_failed
             | Ok accounts \<Rightarrow>
                 (case accounts_length accounts of
                    Throws \<Rightarrow> connect_failed
                  | Undefined \<Rightarrow> Done
                  | Defined n \<Rightarrow>
                      if n > 0 then
                        setupProviderAndContract eth cl (Some (accounts_first accounts))
                          (Upd (\<lambda>s. s\<lparr>account := Some (accounts_first accounts)\<rparr>) Done)
                      else Done)))
          connect_failed)"

text \<open>
  The \<^verbatim>\<open>for\<close> loop of \<^verbatim>\<open>loadItems\<close> (lines 162-171): \<open>ks\<close> continues with the list
  assembled, \<open>kf\<close> is the \<^verbatim>\<open>catch\<close> block.
\<close>

definition to_item :: "raw_item \<Rightarrow> nat \<Rightarrow> item" where
  "to_item raw n = \<lparr> item_id = n, item_seller = raw_seller raw, item_name = raw_name raw,
     item_price = formatEther (raw_price raw), item_sold = raw_sold raw \<rparr>"

function load_loop :: "handle \<Rightarrow> nat \<Rightarrow> nat \<Rightarrow> item list \<Rightarrow> (item list \<Rightarrow> prog) \<Rightarrow> prog \<Rightarrow> prog" where
  "load_loop c i count loaded ks kf =
     (if i \<le> count then
        Await (Items c i) (\<lambda>r.
          case r of
            Ok (VItem raw) \<Rightarrow>
              (case toNumber (raw_id raw) of
                 None \<Rightarrow> kf
               | Some n \<Rightarrow> load_loop c (i + 1) count (loaded @ [to_item raw n]) ks kf)
          | _ \<Rightarrow> kf)
      else ks loaded)"
  by pat_completeness auto
termination
  by (relation "measure (\<lambda>(c, i, count, loaded, ks, kf). Suc count - i)") auto

declare load_loop.simps [simp del]

text \<open>\<^verbatim>\<open>loadItems\<close> (lines 154-178); \<open>contractInstance\<close> is the optional argument.\<close>

definition loadItems :: "handle option \<Rightarrow> store \<Rightarrow> prog \<Rightarrow> prog" where
  "loadItems contractInstance cl k =
     (case (if contractInstance \<noteq> None then contractInstance else contract cl) of
        None \<Rightarrow> k
      | Some c \<Rightarrow>
          (let finally = Upd (\<lambda>s. s\<lparr>loading := False\<rparr>) k;
               catch = Say (ConsoleError ''loadItems error:'') finally
           in Upd (\<lambda>s. s\<lparr>loading := True\<rparr>)
                (Await (ItemCount c) (\<lambda>r.
                   case r of
                     Ok (VBig countBN) \<Rightarrow>
                       (case toNumber countBN of
                          None \<Rightarrow> catch
                        | Some count \<Rightarrow>
                            load_loop c 1 count []
                              (\<lambda>loaded. Upd (\<lambda>s. s\<lparr>items := rev loaded\<rparr>) finally) catch)
                   | _ \<Rightarrow> catch))))"

text \<open>\<^verbatim>\<open>listNewItem\<close> (lines 180-206).\<close>

definition list_failed :: "js_error \<Rightarrow> prog" where
  "list_failed err =
     Say (ConsoleError ''Error listing item:'')
       (Say (AlertError ''Error listing item: '' err)
          (Upd (\<lambda>s. s\<lparr>loading := False\<rparr>) Done))"

definition listNewItem :: "store \<Rightarrow> prog" where
  "listNewItem cl =
     (if \<not> truthy (account cl) \<or> contract cl = None then
        Say (Alert ''Connect your wallet first'') Done
      else if itemName cl = [] \<or> itemPrice cl = [] then
        Say (Alert ''Please enter item name and price'') Done
      else
        Upd (\<lambda>s. s\<lparr>loading := True\<rparr>)
          (case parseEther (itemPrice cl) of
             Inl err \<Rightarrow> list_failed err
           | Inr priceInWei \<Rightarrow>
               Await (ListItem (the (contract cl)) (itemName cl) priceInWei) (\<lambda>r.
                 case r of
                   Throw err \<Rightarrow> list_failed err
                 | Ok (VTx tx) \<Rightarrow>
                     Await (TxWait tx) (\<lambda>r.
                       case r of
                         Throw err \<Rightarrow> list_failed err
                       | Ok _ \<Rightarrow>
                           Upd (\<lambda>s. s\<lparr>itemName := []\<rparr>)
                             (Upd (\<lambda>s. s\<lparr>itemPrice := []\<rparr>)
                                (loadItems (contract cl) cl
                                   (fetchContractBalance None cl
                                      (Say (Alert ''Item listed successfully!'')
                                         (Upd (\<lambda>s. s\<lparr>loading := False\<rparr>) Done))))))
                 | Ok _ \<Rightarrow> list_failed type_error)))"

text \<open>\<^verbatim>\<open>buyItem\<close> (lines 208-228).\<close>

definition buy_failed :: "js_error \<Rightarrow> prog" where
  "buy_failed err =
     Say (ConsoleError ''Error buying item:'')
       (Say (AlertError ''Error buying item: '' err)
          (Upd (\<lambda>s. s\<lparr>loading := False\<rparr>) Done))"

definition buyItem :: "store \<Rightarrow> nat \<Rightarrow> string \<Rightarrow> prog" where
  "buyItem cl ident price =
     (if \<not> truthy (account cl) \<or> contract cl = None then
        Say (Alert ''Connect your wallet first'') Done
      else
        Upd (\<lambda>s. s\<lparr>loading := True\<rparr>)
          (case parseEther price of
             Inl err \<Rightarrow> buy_failed err
           | Inr wei \<Rightarrow>
               Await (BuyItem (the (contract cl)) ident wei) (\<lambda>r.
                 case r of
                   Throw err \<Rightarrow> buy_failed err
                 | Ok (VTx tx) \<Rightarrow>
                     Await (TxWait tx) (\<lambda>r.
                       case r of
                         Throw err \<Rightarrow> buy_failed err
                       | Ok _ \<Rightarrow>
                           loadItems (contract cl) cl
                             (fetchContractBalance None cl
                                (Say (Alert ''Purchase completed!'')
                                   (Upd (\<lambda>s. s\<lparr>loading := False\<rparr>) Done))))
                 | Ok _ \<Rightarrow> buy_failed type_error)))"

text \<open>
  The start-up read of the accounts already authorised (\<^verbatim>\<open>init\<close>, lines 232-246), for a
  component that stays mounted.
\<close>

definition init :: "bool \<Rightarrow> store \<Rightarrow> prog" where
  "init eth cl =
     (if \<not> eth then Done
      else
        Await Eth_accounts (\<lambda>r.
          case r of
            Throw err \<Rightarrow> Say (ConsoleError ''init eth_accounts error:'') Done
          | Ok accounts \<Rightarrow>
              (case accounts_length accounts of
                 Throws \<Rightarrow> Say (ConsoleError ''init eth_accounts error:'') Done
               | Undefined \<Rightarrow> Done
               | Defined n \<Rightarrow>
                   if n > 0 then
                     setupProviderAndContract eth cl (Some (accounts_first accounts))
                       (Upd (\<lambda>s. s\<lparr>account := Some (accounts_first accounts)\<rparr>) Done)
                   else Done)))"

text \<open>
  \<^verbatim>\<open>handleAccountsChanged\<close> (lines 249-263); \<open>None\<close> is a missing account list. The timer
  callback is run by the scheduler below when the timer fires.
\<close>

definition handleAccountsChanged :: "bool \<Rightarrow> store \<Rightarrow> string list option \<Rightarrow> prog" where
  "handleAccountsChanged eth cl accounts =
     (if accounts = None \<or> length (the accounts) = 0 then
        Upd (\<lambda>s. s\<lparr>account := None\<rparr>)
          (Upd (\<lambda>s. s\<lparr>contract := None\<rparr>)
             (Upd (\<lambda>s. s\<lparr>items := []\<rparr>)
                (Upd (\<lambda>s. s\<lparr>contractBalance := Plain ''0.0''\<rparr>) Done)))
      else
        setupProviderAndContract eth cl (Some (hd (the accounts)))
          (Upd (\<lambda>s. s\<lparr>account := Some (hd (the accounts))\<rparr>)
             (Say (SetTimeout 500) Done)))"

section \<open>The rendered controls\<close>

text \<open>ASCII case folding, as \<^verbatim>\<open>toLowerCase\<close> acts on the hexadecimal text of an address.\<close>

definition toLowerCase :: "string \<Rightarrow> string" where
  "toLowerCase t =
     map (\<lambda>c. if 65 \<le> (of_char c :: nat) \<and> (of_char c :: nat) \<le> 90
              then char_of ((of_char c :: nat) + 32) else c) t"

text \<open>\<^verbatim>\<open>account?.toLowerCase() || ""\<close> (line 292).\<close>

definition normalizedAccount :: "store \<Rightarrow> string" where
  "normalizedAccount cl = (case account cl of None \<Rightarrow> [] | Some a \<Rightarrow> toLowerCase a)"

text \<open>The \<^verbatim>\<open>disabled\<close> attribute of the submit button and of every Buy button.\<close>

definition controls_disabled :: "store \<Rightarrow> bool" where
  "controls_disabled cl = (loading cl \<or> \<not> truthy (account cl) \<or> contract cl = None)"

text \<open>
  The form is submitted through its submit button, and the browser submits it only when
  its fields are valid: both are \<^verbatim>\<open>required\<close>, and the price field is a number field
  with \<^verbatim>\<open>min="0"\<close> and \<^verbatim>\<open>step="0.0001"\<close> (lines 400-415). \<open>price_admitted\<close> are the
  unsigned decimal texts that pass: digits, optionally followed by a dot and digits of
  which at most four are significant. The browser compares numbers, so it also admits
  texts with a sign or an exponent that denote such a number; those are left out, and
  \<open>submit_enabled\<close> holds only of states in which the browser submits the form.
\<close>

definition price_admitted :: "string \<Rightarrow> bool" where
  "price_admitted t =
     (case split_dot t of
        [whole] \<Rightarrow> whole \<noteq> [] \<and> list_all is_digit whole
      | [whole, fraction] \<Rightarrow>
          whole \<noteq> [] \<and> list_all is_digit whole \<and> fraction \<noteq> [] \<and> list_all is_digit fraction
          \<and> length (strip_trailing_zeros fraction) \<le> 4
      | _ \<Rightarrow> False)"

definition submit_enabled :: "store \<Rightarrow> bool" where
  "submit_enabled cl =
     (\<not> controls_disabled cl \<and> itemName cl \<noteq> [] \<and> itemPrice cl \<noteq> []
      \<and> price_admitted (itemPrice cl))"

text \<open>
  A listing has a Buy button with a click handler when it is not sold and not the
  account's own.
\<close>

definition buy_enabled :: "store \<Rightarrow> item \<Rightarrow> bool" where
  "buy_enabled cl it =
     (\<not> item_sold it \<and> toLowerCase (item_seller it) \<noteq> normalizedAccount cl
      \<and> \<not> controls_disabled cl)"

section \<open>Interleaving of handlers\<close>

text \<open>
  All handlers run on one thread: one of them runs from an event up to its next suspension
  point, the component is rendered again, its effects run, and the next event is taken.
  The machine holds the component state as last rendered, the suspended handlers, the
  render captured by the armed balance interval, the number of armed timers, and what
  has been requested and reported so far.
\<close>

record machine =
  ethereum :: bool
  view :: store
  pending :: "prog list"
  poll :: store
  timers :: nat
  history :: "event list"

definition is_timeout :: "event \<Rightarrow> bool" where
  "is_timeout e = (case e of Note (SetTimeout d) \<Rightarrow> True | _ \<Rightarrow> False)"

definition suspended :: "prog \<Rightarrow> prog list" where
  "suspended p = (case p of Done \<Rightarrow> [] | _ \<Rightarrow> [p])"

definition spawn :: "prog \<Rightarrow> machine \<Rightarrow> machine" where
  "spawn p m =
     (case exec p [] (view m) [] of
        (s, tr, p') \<Rightarrow>
          m\<lparr> view := s, pending := pending m @ suspended p',
             timers := timers m + length (filter is_timeout tr),
             history := history m @ tr \<rparr>)"

definition resume :: "nat \<Rightarrow> reply \<Rightarrow> machine \<Rightarrow> machine" where
  "resume i r m =
     (if i < length (pending m) then
        (case pending m ! i of
           Await q k \<Rightarrow>
             (case exec (k r) [] (view m) [] of
                (s, tr, p') \<Rightarrow>
                  m\<lparr> view := s,
                     pending := take i (pending m) @ suspended p' @ drop (Suc i) (pending m),
                     timers := timers m + length (filter is_timeout tr),
                     history := history m @ tr \<rparr>)
         | _ \<Rightarrow> m)
      else m)"

text \<open>
  The effects keyed on \<^verbatim>\<open>[contract]\<close> (lines 274-279) and on \<^verbatim>\<open>[provider]\<close>
  (lines 281-290), run after a render in which the cell differs from the render \<open>before\<close>.
\<close>

definition effects :: "store \<Rightarrow> machine \<Rightarrow> machine" where
  "effects before m =
     (let cl = view m;
          m1 = (if contract cl \<noteq> contract before \<and> contract cl \<noteq> None
                then spawn (fetchContractBalance None cl Done)
                       (spawn (loadItems (contract cl) cl Done) m)
                else m)
      in if provider cl \<noteq> provider before then m1\<lparr>poll := cl\<rparr> else m1)"

datatype action =
    ClickConnect
  | TypeName string
  | TypePrice string
  | SubmitForm
  | ClickBuy nat
  | AccountsChanged "string list option"
  | PollTick
  | TimerFired
  | Reply nat reply

definition handle_action :: "action \<Rightarrow> machine \<Rightarrow> machine" where
  "handle_action a m =
     (case a of
        ClickConnect \<Rightarrow>
          if \<not> truthy (account (view m)) then spawn (connectWallet (ethereum m) (view m)) m
          else m
      | TypeName v \<Rightarrow> m\<lparr>view := (view m)\<lparr>itemName := v\<rparr>\<rparr>
      | TypePrice v \<Rightarrow> m\<lparr>view := (view m)\<lparr>itemPrice := v\<rparr>\<rparr>
      | SubmitForm \<Rightarrow> if submit_enabled (view m) then spawn (listNewItem (view m)) m else m
      | ClickBuy n \<Rightarrow>
          if n < length (items (view m)) \<and> buy_enabled (view m) (items (view m) ! n)
          then spawn (buyItem (view m) (item_id (items (view m) ! n))
                        (item_price (items (view m) ! n))) m
          else m
      | AccountsChanged accounts \<Rightarrow>
          if ethereum m then spawn (handleAccountsChanged (ethereum m) init_store accounts) m
          else m
      | PollTick \<Rightarrow> spawn (fetchContractBalance None (poll m) Done) m
      | TimerFired \<Rightarrow>
          if timers m > 0
          then spawn (fetchContractBalance None init_store Done)
                 (spawn (loadItems None init_store Done) (m\<lparr>timers := timers m - 1\<rparr>))
          else m
      | Reply i r \<Rightarrow> resume i r m)"

definition fire :: "action \<Rightarrow> machine \<Rightarrow> machine" where
  "fire a m = effects (view m) (handle_action a m)"

definition run :: "action list \<Rightarrow> machine \<Rightarrow> machine" where
  "run as m = foldl (\<lambda>m a. fire a m) m as"

text \<open>The first render: \<^verbatim>\<open>init\<close> starts and the interval is armed on the empty state.\<close>

definition mount :: "bool \<Rightarrow> machine" where
  "mount eth =
     spawn (init eth init_store)
       \<lparr> ethereum = eth, view = init_store, pending = [], poll = init_store, timers = 0,
         history = [] \<rparr>"

text \<open>A handler suspended between submitting a transaction and its settlement.\<close>

definition in_flight :: "prog \<Rightarrow> bool" where
  "in_flight p =
     (case p of
        Await q k \<Rightarrow>
          (case q of ListItem c n w \<Rightarrow> True | BuyItem c i w \<Rightarrow> True | TxWait t \<Rightarrow> True
           | _ \<Rightarrow> False)
      | _ \<Rightarrow> False)"

text \<open>What can be observed of a machine: the state rendered, which suspended handlers are
  mutating operations in flight, and the requests and notices so far.\<close>

definition snapshot :: "machine \<Rightarrow> store \<times> bool list \<times> event list" where
  "snapshot m = (view m, map in_flight (pending m), history m)"

section \<open>The binding invariant\<close>

text \<open>
  A contract handle is only ever bound after a provider (lines 78-86), and the provider
  cell is never cleared. \<open>bound_ok\<close> is that relation between the two cells;
  \<open>keeps_bound p acc\<close> says that every uninterrupted stretch of the program \<open>p\<close>, run after
  the setter calls accumulated in \<open>acc\<close>, takes a state in the relation to a state in the
  relation, whatever the replies.
\<close>

definition bound_ok :: "store \<Rightarrow> bool" where
  "bound_ok s = (contract s \<noteq> None \<longrightarrow> provider s \<noteq> None)"

definition preserving :: "(store \<Rightarrow> store) \<Rightarrow> bool" where
  "preserving acc = (\<forall>s. bound_ok s \<longrightarrow> bound_ok (acc s))"

primrec keeps_bound :: "prog \<Rightarrow> (store \<Rightarrow> store) \<Rightarrow> bool" where
  "keeps_bound Done acc = preserving acc"
| "keeps_bound (Upd f p) acc = keeps_bound p (f \<circ> acc)"
| "keeps_bound (Say a p) acc = keeps_bound p acc"
| "keeps_bound (New k) acc = (\<forall>h. keeps_bound (k h) ((\<lambda>s. s\<lparr>heap := Suc (heap s)\<rparr>) \<circ> acc))"
| "keeps_bound (Await q k) acc = (preserving acc \<and> (\<forall>r. keeps_bound (k r) (\<lambda>s. s)))"

definition resumable :: "prog \<Rightarrow> bool" where
  "resumable p = (case p of Await q k \<Rightarrow> \<forall>r. keeps_bound (k r) (\<lambda>s. s) | _ \<Rightarrow> True)"

definition machine_ok :: "machine \<Rightarrow> bool" where
  "machine_ok m = (bound_ok (view m) \<and> (\<forall>p\<in>set (pending m). resumable p))"

section \<open>Sample data\<close>

text \<open>Three ledger entries with the ids 1, 2, 3 and the prices 0.0001, 1.5 and 123.456789.\<close>

definition sample_raws :: "raw_item list" where
  "sample_raws =
     [\<lparr>raw_id = 1, raw_seller = ''0xaa'', raw_name = ''pen'', raw_price = 100000000000000,
       raw_sold = False\<rparr>,
      \<lparr>raw_id = 2, raw_seller = ''0xbb'', raw_name = ''ink'', raw_price = 1500000000000000000,
       raw_sold = True\<rparr>,
      \<lparr>raw_id = 3, raw_seller = ''0xaa'', raw_name = ''pad'', raw_price = 123456789000000000000,
       raw_sold = False\<rparr>]"

text \<open>A connected session with the listing form filled in.\<close>

definition connected_form :: "string \<Rightarrow> string \<Rightarrow> store" where
  "connected_form name price =
     init_store\<lparr>account := Some ''0xaa'', provider := Some 6, contract := Some 7,
       itemName := name, itemPrice := price\<rparr>"

text \<open>
  A session that starts with the account \<^verbatim>\<open>0xaa\<close> already authorised, and a run in which
  the user submits the listing form, the wallet then switches to the account \<^verbatim>\<open>0xbb\<close>,
  and the listings refresh started by the new contract handle completes while the first
  transaction is still being submitted.
\<close>

definition authorised_session :: machine where
  "authorised_session = run [Reply 0 (Ok (VStrs [''0xaa'']))] (mount True)"

definition form_filled :: "action list" where
  "form_filled =
     [Reply 0 (Ok (VStrs [''0xaa''])), Reply 1 (Ok (VBig 0)), TypeName ''pen'', TypePrice ''1'']"

definition switch_during_submit :: "action list" where
  "switch_during_submit =
     form_filled @ [SubmitForm, AccountsChanged (Some [''0xbb'']), Reply 4 (Ok (VBig 0))]"

section \<open>Properties\<close>


lemma toNumber_small: "n < 2 ^ 53 \<Longrightarrow> toNumber n = Some n"
  by (simp add: toNumber_def)

lemma load_loop_exit: "count < i \<Longrightarrow> load_loop c i count loaded ks kf = ks loaded"
  by (subst load_loop.simps) simp

lemma load_loop_step:
  "i \<le> count \<Longrightarrow>
   exec (load_loop c i count loaded ks kf) (r # rs) s tr =
     exec (case r of
             Ok (VItem raw) \<Rightarrow>
               (case toNumber (raw_id raw) of
                  None \<Rightarrow> kf
                | Some n \<Rightarrow> load_loop c (i + 1) count (loaded @ [to_item raw n]) ks kf)
           | _ \<Rightarrow> kf) rs s (tr @ [Req (Items c i)])"
  by (subst load_loop.simps) simp

lemma load_loop_wait:
  "i \<le> count \<Longrightarrow>
   \<exists>g. exec (load_loop c i count loaded ks kf) [] s tr = (s, tr @ [Req (Items c i)], Await (Items c i) g)"
  by (subst load_loop.simps) simp

lemma load_loop_reads:
  "\<forall>raw\<in>set raws. raw_id raw < 2 ^ 53 \<Longrightarrow> i + length raws \<le> Suc count \<Longrightarrow>
   exec (load_loop c i count loaded ks kf) (map (\<lambda>raw. Ok (VItem raw)) raws @ rs) s tr =
     exec (load_loop c (i + length raws) count
             (loaded @ map (\<lambda>raw. to_item raw (raw_id raw)) raws) ks kf) rs s
       (tr @ map (\<lambda>j. Req (Items c j)) [i..<i + length raws])"
proof (induction raws arbitrary: i loaded tr)
  case Nil
  then show ?case by simp
next
  case (Cons raw raws)
  from Cons.prems have le: "i \<le> count" and small: "raw_id raw < 2 ^ 53"
    and rest: "\<forall>raw\<in>set raws. raw_id raw < 2 ^ 53" "Suc i + length raws \<le> Suc count"
    by simp_all
  have upt: "[i..<Suc (i + length raws)] = i # [Suc i..<Suc (i + length raws)]"
    by (simp add: upt_conv_Cons del: upt_Suc)
  show ?case
    using Cons.IH [OF rest, of "loaded @ [to_item raw (raw_id raw)]" "tr @ [Req (Items c i)]"]
    by (simp add: load_loop_step [OF le] toNumber_small [OF small] upt del: upt_Suc)
qed


lemma loadItems_start:
  assumes bound: "(if ci \<noteq> None then ci else contract cl) = Some c"
  shows "exec (loadItems ci cl k) (r # rs) s tr =
           exec (case r of
                   Ok (VBig countBN) \<Rightarrow>
                     (case toNumber countBN of
                        None \<Rightarrow>
                          Say (ConsoleError ''loadItems error:'')
                            (Upd (\<lambda>s. s\<lparr>loading := False\<rparr>) k)
                      | Some count \<Rightarrow>
                          load_loop c 1 count []
                            (\<lambda>loaded. Upd (\<lambda>s. s\<lparr>items := rev loaded\<rparr>)
                                         (Upd (\<lambda>s. s\<lparr>loading := False\<rparr>) k))
                            (Say (ConsoleError ''loadItems error:'')
                               (Upd (\<lambda>s. s\<lparr>loading := False\<rparr>) k)))
                 | _ \<Rightarrow> Say (ConsoleError ''loadItems error:'')
                          (Upd (\<lambda>s. s\<lparr>loading := False\<rparr>) k))
             rs (s\<lparr>loading := True\<rparr>) (tr @ [Req (ItemCount c)])"
  using bound by (simp add: loadItems_def Let_def del: One_nat_def)

lemma loadItems_wait:
  assumes bound: "(if ci \<noteq> None then ci else contract cl) = Some c"
  shows "\<exists>g. exec (loadItems ci cl k) [] s tr =
               (s\<lparr>loading := True\<rparr>, tr @ [Req (ItemCount c)], Await (ItemCount c) g)"
  using bound by (simp add: loadItems_def Let_def)

lemma loadItems_success:
  assumes bound: "(if ci \<noteq> None then ci else contract cl) = Some c"
    and count: "n < 2 ^ 53" and len: "length raws = n"
    and ids: "\<forall>raw\<in>set raws. raw_id raw < 2 ^ 53"
  shows "exec (loadItems ci cl k) (Ok (VBig n) # map (\<lambda>raw. Ok (VItem raw)) raws @ rs) s tr =
           exec k rs
             (s\<lparr>items := rev (map (\<lambda>raw. to_item raw (raw_id raw)) raws), loading := False\<rparr>)
             (tr @ Req (ItemCount c) # map (\<lambda>j. Req (Items c j)) [1..<Suc n])"
proof -
  let ?ks = "\<lambda>loaded. Upd (\<lambda>s. s\<lparr>items := rev loaded\<rparr>) (Upd (\<lambda>s. s\<lparr>loading := False\<rparr>) k)"
  let ?kf = "Say (ConsoleError ''loadItems error:'') (Upd (\<lambda>s. s\<lparr>loading := False\<rparr>) k)"
  let ?got = "map (\<lambda>raw. to_item raw (raw_id raw)) raws"
  let ?tr1 = "tr @ [Req (ItemCount c)]"
  have le: "1 + length raws \<le> Suc n" using len by simp
  have out: "n < 1 + length raws" using len by simp
  have "exec (loadItems ci cl k) (Ok (VBig n) # map (\<lambda>raw. Ok (VItem raw)) raws @ rs) s tr =
          exec (load_loop c 1 n [] ?ks ?kf) (map (\<lambda>raw. Ok (VItem raw)) raws @ rs)
            (s\<lparr>loading := True\<rparr>) ?tr1"
    by (simp add: loadItems_start [OF bound] toNumber_small [OF count] del: One_nat_def)
  also have "\<dots> = exec (load_loop c (1 + length raws) n ([] @ ?got) ?ks ?kf) rs
            (s\<lparr>loading := True\<rparr>) (?tr1 @ map (\<lambda>j. Req (Items c j)) [1..<1 + length raws])"
    by (rule load_loop_reads [OF ids le])
  also have "\<dots> = exec (?ks ([] @ ?got)) rs
            (s\<lparr>loading := True\<rparr>) (?tr1 @ map (\<lambda>j. Req (Items c j)) [1..<1 + length raws])"
    by (simp only: load_loop_exit [OF out])
  also have "\<dots> = exec k rs (s\<lparr>items := rev ?got, loading := False\<rparr>)
            (tr @ Req (ItemCount c) # map (\<lambda>j. Req (Items c j)) [1..<Suc n])"
    using len by (simp del: upt_Suc)
  finally show ?thesis .
qed

lemma loadItems_count_fails:
  assumes bound: "(if ci \<noteq> None then ci else contract cl) = Some c"
  shows "exec (loadItems ci cl k) (Throw e # rs) s tr =
           exec k rs (s\<lparr>loading := False\<rparr>)
             (tr @ [Req (ItemCount c), Note (ConsoleError ''loadItems error:'')])"
  by (simp add: loadItems_start [OF bound])

lemma loadItems_read_fails:
  assumes bound: "(if ci \<noteq> None then ci else contract cl) = Some c"
    and count: "n < 2 ^ 53" and len: "length raws < n"
    and ids: "\<forall>raw\<in>set raws. raw_id raw < 2 ^ 53"
  shows "exec (loadItems ci cl k)
           (Ok (VBig n) # map (\<lambda>raw. Ok (VItem raw)) raws @ Throw e # rs) s tr =
           exec k rs (s\<lparr>loading := False\<rparr>)
             (tr @ Req (ItemCount c) # map (\<lambda>j. Req (Items c j)) [1..<length raws + 2]
                @ [Note (ConsoleError ''loadItems error:'')])"
proof -
  let ?ks = "\<lambda>loaded. Upd (\<lambda>s. s\<lparr>items := rev loaded\<rparr>) (Upd (\<lambda>s. s\<lparr>loading := False\<rparr>) k)"
  let ?kf = "Say (ConsoleError ''loadItems error:'') (Upd (\<lambda>s. s\<lparr>loading := False\<rparr>) k)"
  let ?got = "map (\<lambda>raw. to_item raw (raw_id raw)) raws"
  let ?tr1 = "tr @ [Req (ItemCount c)]"
  have le: "1 + length raws \<le> Suc n" using len by simp
  have inside: "1 + length raws \<le> n" using len by simp
  have upt: "[1..<length raws + 2] = [1..<1 + length raws] @ [1 + length raws]"
    by simp
  have "exec (loadItems ci cl k)
          (Ok (VBig n) # map (\<lambda>raw. Ok (VItem raw)) raws @ Throw e # rs) s tr =
          exec (load_loop c 1 n [] ?ks ?kf) (map (\<lambda>raw. Ok (VItem raw)) raws @ Throw e # rs)
            (s\<lparr>loading := True\<rparr>) ?tr1"
    by (simp add: loadItems_start [OF bound] toNumber_small [OF count] del: One_nat_def)
  also have "\<dots> = exec (load_loop c (1 + length raws) n ([] @ ?got) ?ks ?kf) (Throw e # rs)
            (s\<lparr>loading := True\<rparr>) (?tr1 @ map (\<lambda>j. Req (Items c j)) [1..<1 + length raws])"
    by (rule load_loop_reads [OF ids le])
  also have "\<dots> = exec ?kf rs (s\<lparr>loading := True\<rparr>)
            ((?tr1 @ map (\<lambda>j. Req (Items c j)) [1..<1 + length raws])
               @ [Req (Items c (1 + length raws))])"
    by (simp only: load_loop_step [OF inside] reply.case)
  also have "\<dots> = exec k rs (s\<lparr>loading := False\<rparr>)
             (tr @ Req (ItemCount c) # map (\<lambda>j. Req (Items c j)) [1..<length raws + 2]
                @ [Note (ConsoleError ''loadItems error:'')])"
    by (simp only: upt) simp
  finally show ?thesis .
qed

text \<open>
  Claim C1. When \<^verbatim>\<open>accountsChanged\<close> delivers an empty (or missing) account list, the handler
  finishes without any request and, whatever the state was, leaves the account absent, the
  contract handle cleared, the listing cache empty and the balance text at its zero literal.
\<close>

theorem accountsChanged_empty_resets:
  "exec (handleAccountsChanged eth cl (Some [])) rs s tr =
     (s\<lparr>account := None, contract := None, items := [], contractBalance := Plain ''0.0''\<rparr>,
      tr, Done)
   \<and> exec (handleAccountsChanged eth cl None) rs s tr =
     (s\<lparr>account := None, contract := None, items := [], contractBalance := Plain ''0.0''\<rparr>,
      tr, Done)"
  by (simp add: handleAccountsChanged_def)

text \<open>
  Claim C2. With a contract handle bound, an item count \<open>n\<close> and \<open>n\<close> successful reads, \<^verbatim>\<open>loadItems\<close>
  reads the indices 1 to \<open>n\<close> in order, converts every price to its display decimal, and
  stores the \<open>n\<close> listings in the reverse of the order read: most recent first, the ids
  running from \<open>n\<close> down to 1 when the ledger numbers its entries by index.
\<close>

theorem refreshListings_reads_all_and_reverses:
  assumes bound: "(if ci \<noteq> None then ci else contract cl) = Some c"
    and count: "n < 2 ^ 53" and len: "length raws = n"
    and ids: "\<forall>raw\<in>set raws. raw_id raw < 2 ^ 53"
    and run: "exec (loadItems ci cl Done) (Ok (VBig n) # map (\<lambda>raw. Ok (VItem raw)) raws) s tr
                = (s', tr', p')"
  shows "tr' = tr @ Req (ItemCount c) # map (\<lambda>j. Req (Items c j)) [1..<Suc n]
       \<and> items s' = rev (map (\<lambda>raw. to_item raw (raw_id raw)) raws)
       \<and> length (items s') = n
       \<and> map item_price (items s') = rev (map (\<lambda>raw. formatEther (raw_price raw)) raws)
       \<and> map item_id (items s') = rev (map raw_id raws)
       \<and> ((\<forall>j<n. raw_id (raws ! j) = Suc j) \<longrightarrow> map item_id (items s') = rev [1..<Suc n])
       \<and> p' = Done"
proof -
  have res: "s' = s\<lparr>items := rev (map (\<lambda>raw. to_item raw (raw_id raw)) raws), loading := False\<rparr>"
    "tr' = tr @ Req (ItemCount c) # map (\<lambda>j. Req (Items c j)) [1..<Suc n]" "p' = Done"
    using run loadItems_success [OF bound count len ids, of Done "[]" s tr] by simp_all
  have ids_eq: "map item_id (items s') = rev (map raw_id raws)"
    by (simp add: res(1) rev_map to_item_def comp_def)
  have prices: "map item_price (items s') = rev (map (\<lambda>raw. formatEther (raw_price raw)) raws)"
    by (simp add: res(1) rev_map to_item_def comp_def)
  have seq: "(\<forall>j<n. raw_id (raws ! j) = Suc j) \<longrightarrow> map raw_id raws = [1..<Suc n]"
  proof
    assume h: "\<forall>j<n. raw_id (raws ! j) = Suc j"
    show "map raw_id raws = [1..<Suc n]"
      by (rule nth_equalityI) (use len h in \<open>auto simp: nth_append simp del: upt_Suc\<close>)
  qed
  show ?thesis
    using res(2,3) ids_eq prices seq len by (simp add: res(1))
qed


theorem refreshListings_reads_all_and_reverses_witness:
  "map item_id (items (fst (exec (loadItems (Some 7) init_store Done)
      (Ok (VBig 3) # map (\<lambda>raw. Ok (VItem raw)) sample_raws) init_store []))) = [3, 2, 1]"
proof -
  let ?X = "exec (loadItems (Some 7) init_store Done)
      (Ok (VBig 3) # map (\<lambda>raw. Ok (VItem raw)) sample_raws) init_store []"
  have bound: "(if Some (7::nat) \<noteq> None then Some 7 else contract init_store) = Some 7" by simp
  have count: "(3::nat) < 2 ^ 53" by simp
  have len: "length sample_raws = 3" by (simp add: sample_raws_def)
  have ids: "\<forall>raw\<in>set sample_raws. raw_id raw < 2 ^ 53" by (simp add: sample_raws_def)
  have run: "?X = (fst ?X, fst (snd ?X), snd (snd ?X))" by simp
  have seq: "\<forall>j<3. raw_id (sample_raws ! j) = Suc j"
    by (simp add: sample_raws_def numeral_3_eq_3 All_less_Suc)
  from refreshListings_reads_all_and_reverses [OF bound count len ids run]
  have "(\<forall>j<3. raw_id (sample_raws ! j) = Suc j) \<longrightarrow>
          map item_id (items (fst ?X)) = rev [1..<Suc 3]"
    by (elim conjE)
  with seq have "map item_id (items (fst ?X)) = rev [1..<Suc 3]"
    by (rule rev_mp)
  then show ?thesis
    by (simp add: upt_rec)
qed

text \<open>
  Claim C5. When the item count read throws, or a read inside the loop throws after any
  number of successful reads, \<^verbatim>\<open>loadItems\<close> ends with the cached listings (and every
  other cell) as they were, discarding what it had assembled, and with the loading flag
  false.
\<close>

theorem refreshListings_failure_keeps_cache:
  assumes bound: "(if ci \<noteq> None then ci else contract cl) = Some c"
    and count: "n < 2 ^ 53" and len: "length raws < n"
    and ids: "\<forall>raw\<in>set raws. raw_id raw < 2 ^ 53"
  shows "exec (loadItems ci cl Done) (Throw e # rs) s tr =
           (s\<lparr>loading := False\<rparr>,
            tr @ [Req (ItemCount c), Note (ConsoleError ''loadItems error:'')], Done)
       \<and> exec (loadItems ci cl Done)
           (Ok (VBig n) # map (\<lambda>raw. Ok (VItem raw)) raws @ Throw e # rs) s tr =
           (s\<lparr>loading := False\<rparr>,
            tr @ Req (ItemCount c) # map (\<lambda>j. Req (Items c j)) [1..<length raws + 2]
               @ [Note (ConsoleError ''loadItems error:'')], Done)
       \<and> items (s\<lparr>loading := False\<rparr>) = items s
       \<and> loading (s\<lparr>loading := False\<rparr>) = False"
  by (simp only: loadItems_count_fails [OF bound] loadItems_read_fails [OF bound count len ids]
      exec.simps) simp

theorem refreshListings_failure_keeps_cache_witness:
  "items (fst (exec (loadItems None (init_store\<lparr>contract := Some 7, items := [to_item (hd sample_raws) 1]\<rparr>) Done)
      (Ok (VBig 3) # map (\<lambda>raw. Ok (VItem raw)) (take 2 sample_raws) @ [Throw (JsError None ''timeout'')])
      (init_store\<lparr>contract := Some 7, items := [to_item (hd sample_raws) 1]\<rparr>) []))
     = [to_item (hd sample_raws) 1]"
proof -
  let ?s = "init_store\<lparr>contract := Some 7, items := [to_item (hd sample_raws) 1]\<rparr>"
  have bound: "(if (None :: handle option) \<noteq> None then None else contract ?s) = Some 7" by simp
  have count: "(3::nat) < 2 ^ 53" by simp
  have len: "length (take 2 sample_raws) < 3" by simp
  have ids: "\<forall>raw\<in>set (take 2 sample_raws). raw_id raw < 2 ^ 53" by (simp add: sample_raws_def)
  show ?thesis
    using refreshListings_failure_keeps_cache [OF bound count len ids, of "JsError None ''timeout''" "[]" ?s "[]"]
    by simp
qed


lemma ensureNetwork_on_target:
  "exec (ensureNetwork k kf) (Ok (VStr targetChainId) # rs) s tr =
     exec k rs s (tr @ [Req Eth_chainId])"
  by (simp add: ensureNetwork_def)

lemma ensureNetwork_read_fails:
  "exec (ensureNetwork k kf) (Throw e # rs) s tr = exec kf rs s (tr @ [Req Eth_chainId])"
  by (simp add: ensureNetwork_def)

lemma ensureNetwork_switched:
  "v \<noteq> VStr targetChainId \<Longrightarrow>
   exec (ensureNetwork k kf) (Ok v # Ok u # rs) s tr =
     exec k rs s (tr @ [Req Eth_chainId, Req (Wallet_switchEthereumChain targetChainId)])"
  by (simp add: ensureNetwork_def)

lemma ensureNetwork_registered:
  "v \<noteq> VStr targetChainId \<Longrightarrow> err_code e = Some 4902 \<Longrightarrow>
   exec (ensureNetwork k kf) (Ok v # Throw e # Ok u # rs) s tr =
     exec k rs s (tr @ [Req Eth_chainId, Req (Wallet_switchEthereumChain targetChainId),
                        Req (Wallet_addEthereumChain liberty)])"
  by (simp add: ensureNetwork_def)

lemma ensureNetwork_registration_fails:
  "v \<noteq> VStr targetChainId \<Longrightarrow> err_code e = Some 4902 \<Longrightarrow>
   exec (ensureNetwork k kf) (Ok v # Throw e # Throw e' # rs) s tr =
     exec kf rs s (tr @ [Req Eth_chainId, Req (Wallet_switchEthereumChain targetChainId),
                         Req (Wallet_addEthereumChain liberty)])"
  by (simp add: ensureNetwork_def)

lemma ensureNetwork_switch_fails:
  "v \<noteq> VStr targetChainId \<Longrightarrow> err_code e \<noteq> Some 4902 \<Longrightarrow>
   exec (ensureNetwork k kf) (Ok v # Throw e # rs) s tr =
     exec kf rs s (tr @ [Req Eth_chainId, Req (Wallet_switchEthereumChain targetChainId)])"
  by (simp add: ensureNetwork_def)

lemma ensureNetwork_registration_iff:
  "Req (Wallet_addEthereumChain liberty) \<in> set (fst (snd (exec (ensureNetwork Done Done) rs s [])))
     \<longleftrightarrow> (\<exists>v e rs'. rs = Ok v # Throw e # rs' \<and> v \<noteq> VStr targetChainId \<and> err_code e = Some 4902)"
proof (cases rs)
  case Nil
  then show ?thesis by (simp add: ensureNetwork_def)
next
  case (Cons r1 rs1)
  show ?thesis
  proof (cases r1)
    case (Throw e)
    with Cons show ?thesis by (simp add: ensureNetwork_def)
  next
    case (Ok v)
    show ?thesis
    proof (cases "v = VStr targetChainId")
      case True
      with Cons Ok show ?thesis by (simp add: ensureNetwork_def)
    next
      case False
      show ?thesis
      proof (cases rs1)
        case Nil
        with Cons Ok False show ?thesis by (simp add: ensureNetwork_def)
      next
        case (Cons r2 rs2)
        with \<open>rs = r1 # rs1\<close> Ok False show ?thesis
          by (cases r2; cases rs2) (simp_all add: ensureNetwork_def split: reply.split)
      qed
    qed
  qed
qed

lemma ensureNetwork_switch_iff:
  "Req (Wallet_switchEthereumChain targetChainId)
      \<in> set (fst (snd (exec (ensureNetwork Done Done) rs s [])))
     \<longleftrightarrow> (\<exists>v rs'. rs = Ok v # rs' \<and> v \<noteq> VStr targetChainId)"
proof (cases rs)
  case Nil
  then show ?thesis by (simp add: ensureNetwork_def)
next
  case (Cons r1 rs1)
  show ?thesis
  proof (cases r1)
    case (Throw e)
    with Cons show ?thesis by (simp add: ensureNetwork_def)
  next
    case (Ok v)
    show ?thesis
    proof (cases "v = VStr targetChainId")
      case True
      with Cons Ok show ?thesis by (simp add: ensureNetwork_def)
    next
      case False
      show ?thesis
      proof (cases rs1)
        case Nil
        with Cons Ok False show ?thesis by (simp add: ensureNetwork_def)
      next
        case (Cons r2 rs2)
        with \<open>rs = r1 # rs1\<close> Ok False show ?thesis
          by (cases r2; cases rs2) (simp_all add: ensureNetwork_def split: reply.split)
      qed
    qed
  qed
qed

lemma connectWallet_switch_failure_aborts:
  "v \<noteq> VStr targetChainId \<Longrightarrow> err_code e \<noteq> Some 4902 \<Longrightarrow>
   exec (connectWallet True cl) (Ok v # Throw e # rs) s tr =
     (s, tr @ [Req Eth_chainId, Req (Wallet_switchEthereumChain targetChainId),
               Note (ConsoleError ''connectWallet error:''),
               Note (Alert ''Connection rejected or failed.'')], Done)"
  by (simp add: connectWallet_def ensureNetwork_switch_fails connect_failed_def)


lemma connect_failed_run:
  "exec connect_failed rs s tr =
     (s, tr @ [Note (ConsoleError ''connectWallet error:''),
               Note (Alert ''Connection rejected or failed.'')], Done)"
  by (simp add: connect_failed_def)

lemma connectWallet_unfold:
  "connectWallet True cl =
     ensureNetwork
       (Await Eth_requestAccounts (\<lambda>r.
          case r of
            Throw err \<Rightarrow> connect_failed
          | Ok accounts \<Rightarrow>
              (case accounts_length accounts of
                 Throws \<Rightarrow> connect_failed
               | Undefined \<Rightarrow> Done
               | Defined n \<Rightarrow>
                   if n > 0 then
                     setupProviderAndContract True cl (Some (accounts_first accounts))
                       (Upd (\<lambda>s. s\<lparr>account := Some (accounts_first accounts)\<rparr>) Done)
                   else Done)))
       connect_failed"
  by (simp only: connectWallet_def not_True_eq_False if_False)

text \<open>
  Claim C3. The network part of \<^verbatim>\<open>connectWallet\<close> reads the chain id. On the target id
  it goes on with the rest of the connect flow after that single read. On any other id it
  requests a switch; it requests the registration of the Liberty descriptor exactly when
  the switch throws with code 4902; a switch that throws with another code ends the connect
  flow in its \<^verbatim>\<open>catch\<close> block, with no further request and the state untouched.
\<close>

theorem ensureNetwork_protocol:
  "exec (ensureNetwork k kf) (Ok (VStr targetChainId) # rs) s tr =
     exec k rs s (tr @ [Req Eth_chainId])
   \<and> (v \<noteq> VStr targetChainId \<longrightarrow>
        exec (ensureNetwork k kf) (Ok v # Ok u # rs) s tr =
          exec k rs s (tr @ [Req Eth_chainId, Req (Wallet_switchEthereumChain targetChainId)])
      \<and> (err_code e = Some 4902 \<longrightarrow>
           exec (ensureNetwork k kf) (Ok v # Throw e # Ok u # rs) s tr =
             exec k rs s (tr @ [Req Eth_chainId, Req (Wallet_switchEthereumChain targetChainId),
                                Req (Wallet_addEthereumChain liberty)]))
      \<and> (err_code e' \<noteq> Some 4902 \<longrightarrow>
           exec (ensureNetwork k kf) (Ok v # Throw e' # rs) s tr =
             exec kf rs s (tr @ [Req Eth_chainId, Req (Wallet_switchEthereumChain targetChainId)])
         \<and> exec (connectWallet True cl) (Ok v # Throw e' # rs) s tr =
             (s, tr @ [Req Eth_chainId, Req (Wallet_switchEthereumChain targetChainId),
                       Note (ConsoleError ''connectWallet error:''),
                       Note (Alert ''Connection rejected or failed.'')], Done)))
   \<and> (Req (Wallet_switchEthereumChain targetChainId)
         \<in> set (fst (snd (exec (ensureNetwork Done Done) rs s [])))
       \<longleftrightarrow> (\<exists>v rs'. rs = Ok v # rs' \<and> v \<noteq> VStr targetChainId))
   \<and> (Req (Wallet_addEthereumChain liberty)
         \<in> set (fst (snd (exec (ensureNetwork Done Done) rs s [])))
       \<longleftrightarrow> (\<exists>v e rs'. rs = Ok v # Throw e # rs' \<and> v \<noteq> VStr targetChainId
             \<and> err_code e = Some 4902))"
  using ensureNetwork_switch_iff [of rs s] ensureNetwork_registration_iff [of rs s]
  by (simp add: ensureNetwork_on_target ensureNetwork_switched ensureNetwork_registered
      ensureNetwork_switch_fails connectWallet_switch_failure_aborts)

theorem ensureNetwork_protocol_witness:
  "exec (ensureNetwork Done Done)
     [Ok (VStr ''0x999''), Throw (JsError (Some 4902) ''Unrecognized chain ID''), Ok VUnit]
     init_store [] =
     (init_store, [Req Eth_chainId, Req (Wallet_switchEthereumChain ''0x1f90''),
                   Req (Wallet_addEthereumChain liberty)], Done)
   \<and> exec (connectWallet True init_store)
       [Ok (VStr ''0x999''), Throw (JsError (Some 4001) ''User rejected the request.'')]
       init_store [] =
     (init_store, [Req Eth_chainId, Req (Wallet_switchEthereumChain ''0x1f90''),
                   Note (ConsoleError ''connectWallet error:''),
                   Note (Alert ''Connection rejected or failed.'')], Done)"
proof -
  have v: "VStr ''0x999'' \<noteq> VStr targetChainId" by (simp add: targetChainId_def)
  have e: "err_code (JsError (Some 4902) ''Unrecognized chain ID'') = Some 4902" by simp
  have e': "err_code (JsError (Some 4001) ''User rejected the request.'') \<noteq> Some 4902" by simp
  show ?thesis
    using v e e'
      ensureNetwork_protocol [of Done Done "[]" init_store "[]" "VStr ''0x999''" VUnit
        "JsError (Some 4902) ''Unrecognized chain ID''"
        "JsError (Some 4001) ''User rejected the request.''" init_store]
    by (simp add: targetChainId_def)
qed

text \<open>
  Claim C10. A call of \<^verbatim>\<open>connectWallet\<close> that fails before an account is bound ends
  with the whole state as it was before the call, every cell of it, whatever replies
  would still follow: when the wallet is missing, when the chain id read throws, when the
  switch throws with a code other than 4902, when the registration throws, and, after each
  of the three ways the network part can succeed, when the account request throws or is
  answered with the empty list. The first four and the rejected account request end in the
  alert of the \<^verbatim>\<open>catch\<close> block, the empty list ends silently.
\<close>

theorem connectWallet_failure_is_atomic:
  "exec (connectWallet False cl) rs s tr =
     (s, tr @ [Note (Alert ''MetaMask not detected. Please install MetaMask.'')], Done)
   \<and> exec (connectWallet True cl) (Throw e # rs) s tr =
     (s, tr @ [Req Eth_chainId, Note (ConsoleError ''connectWallet error:''),
               Note (Alert ''Connection rejected or failed.'')], Done)
   \<and> exec (connectWallet True cl) (Ok (VStr targetChainId) # Throw e # rs) s tr =
     (s, tr @ [Req Eth_chainId, Req Eth_requestAccounts,
               Note (ConsoleError ''connectWallet error:''),
               Note (Alert ''Connection rejected or failed.'')], Done)
   \<and> exec (connectWallet True cl) (Ok (VStr targetChainId) # Ok (VStrs []) # rs) s tr =
     (s, tr @ [Req Eth_chainId, Req Eth_requestAccounts], Done)
   \<and> (v \<noteq> VStr targetChainId \<longrightarrow>
        (err_code e' \<noteq> Some 4902 \<longrightarrow>
           exec (connectWallet True cl) (Ok v # Throw e' # rs) s tr =
             (s, tr @ [Req Eth_chainId, Req (Wallet_switchEthereumChain targetChainId),
                       Note (ConsoleError ''connectWallet error:''),
                       Note (Alert ''Connection rejected or failed.'')], Done))
      \<and> exec (connectWallet True cl) (Ok v # Ok u # Throw e # rs) s tr =
           (s, tr @ [Req Eth_chainId, Req (Wallet_switchEthereumChain targetChainId),
                     Req Eth_requestAccounts, Note (ConsoleError ''connectWallet error:''),
                     Note (Alert ''Connection rejected or failed.'')], Done)
      \<and> exec (connectWallet True cl) (Ok v # Ok u # Ok (VStrs []) # rs) s tr =
           (s, tr @ [Req Eth_chainId, Req (Wallet_switchEthereumChain targetChainId),
                     Req Eth_requestAccounts], Done)
      \<and> (err_code en = Some 4902 \<longrightarrow>
           exec (connectWallet True cl) (Ok v # Throw en # Throw e # rs) s tr =
             (s, tr @ [Req Eth_chainId, Req (Wallet_switchEthereumChain targetChainId),
                       Req (Wallet_addEthereumChain liberty),
                       Note (ConsoleError ''connectWallet error:''),
                       Note (Alert ''Connection rejected or failed.'')], Done)
         \<and> exec (connectWallet True cl) (Ok v # Throw en # Ok u # Throw e # rs) s tr =
             (s, tr @ [Req Eth_chainId, Req (Wallet_switchEthereumChain targetChainId),
                       Req (Wallet_addEthereumChain liberty), Req Eth_requestAccounts,
                       Note (ConsoleError ''connectWallet error:''),
                       Note (Alert ''Connection rejected or failed.'')], Done)
         \<and> exec (connectWallet True cl) (Ok v # Throw en # Ok u # Ok (VStrs []) # rs) s tr =
             (s, tr @ [Req Eth_chainId, Req (Wallet_switchEthereumChain targetChainId),
                       Req (Wallet_addEthereumChain liberty), Req Eth_requestAccounts], Done)))"
proof -
  have missing: "exec (connectWallet False cl) rs s tr =
     (s, tr @ [Note (Alert ''MetaMask not detected. Please install MetaMask.'')], Done)"
    by (simp add: connectWallet_def)
  show ?thesis
    unfolding connectWallet_unfold
    by (simp add: missing ensureNetwork_read_fails ensureNetwork_on_target
        ensureNetwork_switched ensureNetwork_switch_fails ensureNetwork_registered
        ensureNetwork_registration_fails connect_failed_run accounts_length_def)
qed

theorem connectWallet_failure_is_atomic_witness:
  "exec (connectWallet True init_store)
     [Ok (VStr ''0x999''), Throw (JsError (Some 4001) ''User rejected the request.''),
      Ok (VStrs [''0xaa''])]
     (connected_form ''pen'' ''1'') [] =
     (connected_form ''pen'' ''1'',
      [Req Eth_chainId, Req (Wallet_switchEthereumChain ''0x1f90''),
       Note (ConsoleError ''connectWallet error:''),
       Note (Alert ''Connection rejected or failed.'')], Done)
   \<and> exec (connectWallet True init_store)
     [Ok (VStr ''0x999''), Throw (JsError (Some 4902) ''Unrecognized chain ID''), Ok VUnit,
      Ok (VStrs [])]
     (connected_form ''pen'' ''1'') [] =
     (connected_form ''pen'' ''1'',
      [Req Eth_chainId, Req (Wallet_switchEthereumChain ''0x1f90''),
       Req (Wallet_addEthereumChain liberty), Req Eth_requestAccounts], Done)"
proof -
  have v: "VStr ''0x999'' \<noteq> VStr targetChainId" by (simp add: targetChainId_def)
  have e': "err_code (JsError (Some 4001) ''User rejected the request.'') \<noteq> Some 4902" by simp
  have en: "err_code (JsError (Some 4902) ''Unrecognized chain ID'') = Some 4902" by simp
  show ?thesis
    using v e' en
      connectWallet_failure_is_atomic [where v = "VStr ''0x999''"
        and e' = "JsError (Some 4001) ''User rejected the request.''"
        and en = "JsError (Some 4902) ''Unrecognized chain ID''"
        and cl = init_store and s = "connected_form ''pen'' ''1''" and tr = "[]"
        and rs = "[Ok (VStrs [''0xaa''])]" and u = VUnit]
      connectWallet_failure_is_atomic [where v = "VStr ''0x999''"
        and e' = "JsError (Some 4001) ''User rejected the request.''"
        and en = "JsError (Some 4902) ''Unrecognized chain ID''"
        and cl = init_store and s = "connected_form ''pen'' ''1''" and tr = "[]"
        and rs = "[]" and u = VUnit]
    by (simp add: targetChainId_def)
qed


lemma digit_char_is_digit: "d < 10 \<Longrightarrow> is_digit (digit_char d)"
  by (simp add: is_digit_def digit_char_def)

lemma digit_val_digit_char: "d < 10 \<Longrightarrow> digit_val (digit_char d) = d"
  by (simp add: digit_val_def digit_char_def)

lemma is_digit_not_dot: "is_digit c \<Longrightarrow> c \<noteq> CHR ''.''"
  by (auto simp: is_digit_def)

lemma is_digit_not_minus: "is_digit c \<Longrightarrow> c \<noteq> CHR ''-''"
  by (auto simp: is_digit_def)

lemma is_digit_zero: "is_digit CHR ''0''"
  by (simp add: is_digit_def)

lemma digit_val_zero: "digit_val CHR ''0'' = 0"
  by (simp add: digit_val_def)

lemma decimal_digits: "list_all is_digit (decimal n)"
proof (induction n rule: decimal.induct)
  case (1 n)
  show ?case
  proof (cases "n < 10")
    case True
    then show ?thesis by (subst decimal.simps) (simp add: digit_char_is_digit)
  next
    case False
    with 1 show ?thesis by (subst decimal.simps) (simp add: digit_char_is_digit)
  qed
qed

lemma decimal_nonempty: "decimal n \<noteq> []"
  by (subst decimal.simps) simp

lemma from_decimal_snoc: "from_decimal (t @ [c]) = 10 * from_decimal t + digit_val c"
  by (simp add: from_decimal_def)

lemma from_decimal_decimal: "from_decimal (decimal n) = n"
proof (induction n rule: decimal.induct)
  case (1 n)
  show ?case
  proof (cases "n < 10")
    case True
    then show ?thesis
      by (subst decimal.simps) (simp add: from_decimal_def digit_val_digit_char)
  next
    case False
    with 1 show ?thesis
      by (subst decimal.simps) (simp add: from_decimal_snoc digit_val_digit_char)
  qed
qed

lemma decimal_length: "0 < k \<Longrightarrow> n < 10 ^ k \<Longrightarrow> length (decimal n) \<le> k"
proof (induction n arbitrary: k rule: decimal.induct)
  case (1 n)
  show ?case
  proof (cases "n < 10")
    case True
    with "1.prems" show ?thesis by (subst decimal.simps) simp
  next
    case False
    obtain j where k: "k = Suc j" using "1.prems"(1) by (cases k) auto
    have j: "0 < j" using False "1.prems"(2) k by (cases j) auto
    have "n div 10 < 10 ^ j" using "1.prems"(2) k by (simp add: less_mult_imp_div_less mult.commute)
    with "1.IH" [OF False j] have "length (decimal (n div 10)) \<le> j" .
    with False k show ?thesis by (subst decimal.simps) simp
  qed
qed

lemma from_decimal_zeros: "from_decimal (replicate k CHR ''0'' @ t) = from_decimal t"
proof -
  have "foldl (\<lambda>a c. 10 * a + digit_val c) 0 (replicate k CHR ''0'') = 0"
    by (induction k) (simp_all add: digit_val_zero)
  then show ?thesis by (simp add: from_decimal_def)
qed

lemma split_dot_plain: "CHR ''.'' \<notin> set t \<Longrightarrow> split_dot t = [t]"
  by (induction t) auto

lemma split_dot_once:
  "CHR ''.'' \<notin> set w \<Longrightarrow> CHR ''.'' \<notin> set f \<Longrightarrow> split_dot (w @ CHR ''.'' # f) = [w, f]"
  by (induction w) (auto simp: split_dot_plain)

lemma strip_decompose:
  "t = strip_trailing_zeros t @ replicate (length t - length (strip_trailing_zeros t)) CHR ''0''"
proof -
  let ?z = "\<lambda>c. c = CHR ''0''"
  have tw: "takeWhile ?z (rev t) = replicate (length (takeWhile ?z (rev t))) CHR ''0''"
    by (rule replicate_length_same [symmetric]) (auto dest: set_takeWhileD)
  have "rev t = takeWhile ?z (rev t) @ dropWhile ?z (rev t)" by simp
  then have "t = rev (dropWhile ?z (rev t)) @ rev (takeWhile ?z (rev t))"
    by (metis rev_append rev_rev_ident)
  also have "rev (takeWhile ?z (rev t)) = replicate (length (takeWhile ?z (rev t))) CHR ''0''"
    using tw by (metis rev_replicate)
  also have "length (takeWhile ?z (rev t)) = length t - length (strip_trailing_zeros t)"
  proof -
    have "length (takeWhile ?z (rev t)) + length (dropWhile ?z (rev t)) = length (rev t)"
      by (metis length_append takeWhile_dropWhile_id)
    then show ?thesis by (simp add: strip_trailing_zeros_def)
  qed
  finally show ?thesis by (simp add: strip_trailing_zeros_def)
qed

lemma strip_idem: "strip_trailing_zeros (strip_trailing_zeros t) = strip_trailing_zeros t"
  by (simp add: strip_trailing_zeros_def)

lemma strip_length: "length (strip_trailing_zeros t) \<le> length t"
  using length_dropWhile_le [of "\<lambda>c. c = CHR ''0''" "rev t"] by (simp add: strip_trailing_zeros_def)

lemma strip_subset: "set (strip_trailing_zeros t) \<subseteq> set t"
  by (auto simp: strip_trailing_zeros_def dest: set_dropWhileD)


lemma all_digits_no_dot: "list_all is_digit t \<Longrightarrow> CHR ''.'' \<notin> set t"
  by (auto simp: list_all_iff dest: is_digit_not_dot)

lemma pad_left_digits: "list_all is_digit t \<Longrightarrow> list_all is_digit (pad_left n t)"
  by (auto simp: pad_left_def list_all_iff is_digit_zero)

lemma parse_unsigned_formatEther: "parse_unsigned (formatEther x) = Inr x"
proof -
  define whole where "whole = decimal (x div 10 ^ 18)"
  define padded where "padded = pad_left 18 (decimal (x mod 10 ^ 18))"
  define stripped where "stripped = strip_trailing_zeros padded"
  define fraction where "fraction = (if stripped = [] then ''0'' else stripped)"
  have fmt: "formatEther x = whole @ CHR ''.'' # fraction"
    by (simp add: formatEther_def Let_def whole_def padded_def stripped_def fraction_def)
  have short: "length (decimal (x mod 10 ^ 18)) \<le> 18"
    by (rule decimal_length) simp_all
  then have len: "length padded = 18"
    by (simp add: padded_def pad_left_def)
  have whole_digits: "list_all is_digit whole" and whole_nonempty: "whole \<noteq> []"
    by (simp_all add: whole_def decimal_digits decimal_nonempty)
  have padded_digits: "list_all is_digit padded"
    by (simp add: padded_def pad_left_digits decimal_digits)
  have stripped_digits: "list_all is_digit stripped"
    using padded_digits strip_subset [of padded] by (auto simp: stripped_def list_all_iff)
  have fraction_digits: "list_all is_digit fraction" and fraction_nonempty: "fraction \<noteq> []"
    using stripped_digits by (simp_all add: fraction_def is_digit_zero)
  have comps: "split_dot (whole @ CHR ''.'' # fraction) = [whole, fraction]"
    by (rule split_dot_once) (simp_all add: all_digits_no_dot whole_digits fraction_digits)
  have not_dot: "whole @ CHR ''.'' # fraction \<noteq> ''.''"
    using whole_nonempty by (cases whole) simp_all
  have restrip: "strip_trailing_zeros fraction = stripped"
    by (simp add: fraction_def stripped_def strip_idem) (simp add: strip_trailing_zeros_def)
  have fits: "length stripped \<le> 18"
    using strip_length [of padded] len by (simp add: stripped_def)
  have repad: "pad_right 18 fraction = padded"
  proof (cases "stripped = []")
    case True
    with strip_decompose [of padded] len have "padded = replicate 18 CHR ''0''"
      by (simp add: stripped_def)
    moreover have "pad_right 18 ''0'' = replicate 18 CHR ''0''"
      by (simp add: pad_right_def eval_nat_numeral)
    ultimately show ?thesis using True by (simp add: fraction_def)
  next
    case False
    with strip_decompose [of padded] len show ?thesis
      by (simp add: fraction_def pad_right_def stripped_def)
  qed
  have fraction_value: "from_decimal padded = x mod 10 ^ 18"
    by (simp add: padded_def pad_left_def from_decimal_zeros from_decimal_decimal)
  have whole_value: "from_decimal whole = x div 10 ^ 18"
    by (simp add: whole_def from_decimal_decimal)
  have "parse_unsigned (whole @ CHR ''.'' # fraction) =
          Inr (from_decimal whole * 10 ^ 18 + from_decimal (pad_right 18 fraction))"
    using not_dot whole_nonempty fraction_nonempty fits
    by (simp add: parse_unsigned_def comps Let_def restrip) (simp add: fraction_def)
  then show ?thesis
    by (simp add: fmt repad fraction_value whole_value)
qed

lemma parseEther_formatEther: "parseEther (formatEther x) = Inr (int x)"
proof -
  define whole where "whole = decimal (x div 10 ^ 18)"
  define fraction where
    "fraction = (let f = strip_trailing_zeros (pad_left 18 (decimal (x mod 10 ^ 18)))
                 in if f = [] then ''0'' else f)"
  have fmt: "formatEther x = whole @ CHR ''.'' # fraction"
    by (simp add: formatEther_def Let_def whole_def fraction_def)
  have whole_digits: "list_all is_digit whole" and whole_nonempty: "whole \<noteq> []"
    by (simp_all add: whole_def decimal_digits decimal_nonempty)
  have padded_digits: "list_all is_digit (pad_left 18 (decimal (x mod 10 ^ 18)))"
    by (simp add: pad_left_digits decimal_digits)
  have fraction_digits: "list_all is_digit fraction"
    using padded_digits strip_subset [of "pad_left 18 (decimal (x mod 10 ^ 18))"]
    by (auto simp: fraction_def Let_def list_all_iff is_digit_zero)
  have positive: "hd (formatEther x) \<noteq> CHR ''-''"
    using whole_digits whole_nonempty by (cases whole) (auto simp: fmt dest: is_digit_not_minus)
  have shape: "list_all (\<lambda>c. is_digit c \<or> c = CHR ''.'') (formatEther x)"
    using whole_digits fraction_digits by (auto simp: fmt list_all_iff)
  have nonempty: "formatEther x \<noteq> []"
    by (simp add: fmt)
  show ?thesis
    using positive shape nonempty
    by (simp add: parseEther_def Let_def parse_unsigned_formatEther)
qed


lemma replicate_numeral_unfold: "replicate (numeral k) x = x # replicate (pred_numeral k) x"
  by (simp add: numeral_eq_Suc)

lemmas conversion_eval =
  parseEther_def parse_unsigned_def formatEther_def is_digit_def digit_val_def digit_char_def
  strip_trailing_zeros_def pad_left_def pad_right_def from_decimal_def Let_def decimal.simps
  replicate_numeral_unfold char_of_eq_iff take_bit_eq_mod

lemma parseEther_empty: "parseEther [] = Inl (JsError None ''invalid decimal value'')"
  by (simp add: parseEther_def)

lemma buyItem_submits:
  assumes "truthy (account cl)" and "contract cl = Some c" and "parseEther price = Inr w"
  shows "\<exists>g. exec (buyItem cl n price) [] s tr =
           (s\<lparr>loading := True\<rparr>, tr @ [Req (BuyItem c n w)], Await (BuyItem c n w) g)"
  using assms by (simp add: buyItem_def)

lemma listNewItem_submits:
  assumes "truthy (account cl)" and "contract cl = Some c" and "itemName cl \<noteq> []"
    and "parseEther (itemPrice cl) = Inr w"
  shows "\<exists>g. exec (listNewItem cl) [] s tr =
           (s\<lparr>loading := True\<rparr>, tr @ [Req (ListItem c (itemName cl) w)],
            Await (ListItem c (itemName cl) w) g)"
proof -
  have "itemPrice cl \<noteq> []"
    using assms(4) by (auto simp: parseEther_empty)
  with assms show ?thesis by (simp add: listNewItem_def)
qed

text \<open>
  Claim C8. The display decimal that \<^verbatim>\<open>loadItems\<close> stores for a native-unit price \<open>x\<close>
  converts back to exactly \<open>x\<close>; so the value that \<^verbatim>\<open>buyItem\<close> attaches, when it is
  called with the price text of a cached listing, is the listing's native-unit price.
\<close>

theorem price_round_trip:
  "parseEther (formatEther x) = Inr (int x)
   \<and> parseEther (item_price (to_item raw n)) = Inr (int (raw_price raw))
   \<and> (truthy (account cl) \<and> contract cl = Some c \<longrightarrow>
        fst (snd (exec (buyItem cl n (item_price (to_item raw n))) [] s tr)) =
          tr @ [Req (BuyItem c n (int (raw_price raw)))])"
proof -
  have decoded: "parseEther (item_price (to_item raw n)) = Inr (int (raw_price raw))"
    by (simp add: to_item_def parseEther_formatEther)
  have "fst (snd (exec (buyItem cl n (item_price (to_item raw n))) [] s tr)) =
          tr @ [Req (BuyItem c n (int (raw_price raw)))]"
    if "truthy (account cl)" and "contract cl = Some c"
    using buyItem_submits [OF that decoded, of n s tr] by auto
  with decoded show ?thesis
    by (simp add: parseEther_formatEther)
qed

theorem price_round_trip_witness:
  "formatEther 123456789000000000000 = ''123.456789''
   \<and> parseEther ''123.456789'' = Inr 123456789000000000000
   \<and> fst (snd (exec (buyItem (connected_form [] []) 3
                      (item_price (to_item (sample_raws ! 2) 3))) []
                  (connected_form [] []) [])) =
       [Req (BuyItem 7 3 123456789000000000000)]"
proof -
  have session: "truthy (account (connected_form [] [])) \<and> contract (connected_form [] []) = Some 7"
    by (simp add: connected_form_def truthy_def)
  have price: "raw_price (sample_raws ! 2) = 123456789000000000000"
    by (simp add: sample_raws_def)
  have text_of: "formatEther 123456789000000000000 = ''123.456789''"
    by (simp add: conversion_eval)
  show ?thesis
    using session price text_of
      price_round_trip [of 123456789000000000000 "sample_raws ! 2" 3 "connected_form [] []" 7
        "connected_form [] []" "[]"]
    by simp
qed

text \<open>
  Claim C6, as stated, fails: with a session bound, the name \<^verbatim>\<open>pen\<close> and the price text
  \<^verbatim>\<open>0\<close>, \<^verbatim>\<open>listNewItem\<close> calls the contract with the amount zero.
\<close>

theorem listNewItem_zero_price_counterexample:
  "parseEther (itemPrice (connected_form ''pen'' ''0'')) = Inr 0
   \<and> fst (snd (exec (listNewItem (connected_form ''pen'' ''0'')) []
                  (connected_form ''pen'' ''0'') [])) =
       [Req (ListItem 7 ''pen'' 0)]"
proof -
  have zero: "parseEther ''0'' = Inr 0"
    by (simp add: conversion_eval)
  then show ?thesis
    by (simp add: connected_form_def listNewItem_def truthy_def init_store_def)
qed

text \<open>
  Claim C6, amended. With a session bound, \<^verbatim>\<open>listNewItem\<close> only checks that the name and
  the price text are present: if either is empty it alerts and ends, with no request and
  no change of state. With both present it sets the loading flag and converts the price
  text: a text that converts is handed to the contract call as it is, whatever the amount;
  a text that does not convert is reported, with no request.
\<close>

theorem listNewItem_presence_check:
  assumes session: "truthy (account cl)" "contract cl = Some c"
  shows "((itemName cl = [] \<or> itemPrice cl = []) \<longrightarrow>
            exec (listNewItem cl) rs s tr =
              (s, tr @ [Note (Alert ''Please enter item name and price'')], Done))
       \<and> (itemName cl \<noteq> [] \<and> itemPrice cl \<noteq> [] \<longrightarrow>
            (\<forall>w. parseEther (itemPrice cl) = Inr w \<longrightarrow>
               fst (exec (listNewItem cl) [] s tr) = s\<lparr>loading := True\<rparr>
             \<and> fst (snd (exec (listNewItem cl) [] s tr)) =
                 tr @ [Req (ListItem c (itemName cl) w)])
          \<and> (\<forall>e. parseEther (itemPrice cl) = Inl e \<longrightarrow>
               exec (listNewItem cl) rs s tr =
                 (s\<lparr>loading := False\<rparr>,
                  tr @ [Note (ConsoleError ''Error listing item:''),
                        Note (AlertError ''Error listing item: '' e)], Done)))"
  using session by (auto simp: listNewItem_def list_failed_def)

theorem listNewItem_presence_check_witness:
  "exec (listNewItem (connected_form [] ''1.5'')) [] (connected_form [] ''1.5'') [] =
     (connected_form [] ''1.5'', [Note (Alert ''Please enter item name and price'')], Done)
   \<and> fst (snd (exec (listNewItem (connected_form ''pen'' ''1.5'')) []
                  (connected_form ''pen'' ''1.5'') [])) =
       [Req (ListItem 7 ''pen'' 1500000000000000000)]
   \<and> exec (listNewItem (connected_form ''pen'' ''1e2'')) [] (connected_form ''pen'' ''1e2'') [] =
     ((connected_form ''pen'' ''1e2'')\<lparr>loading := False\<rparr>,
      [Note (ConsoleError ''Error listing item:''),
       Note (AlertError ''Error listing item: '' (JsError None ''invalid decimal value''))], Done)"
proof -
  have session: "truthy (account (connected_form name price))"
    "contract (connected_form name price) = Some 7" for name price
    by (simp_all add: connected_form_def truthy_def)
  have fields: "itemName (connected_form name price) = name"
    "itemPrice (connected_form name price) = price" for name price
    by (simp_all add: connected_form_def)
  have good: "parseEther ''1.5'' = Inr 1500000000000000000"
    by (simp add: conversion_eval)
  have bad: "parseEther ''1e2'' = Inl (JsError None ''invalid decimal value'')"
    by (simp add: conversion_eval)
  show ?thesis
    using listNewItem_presence_check [OF session, of "[]" "''1.5''" "[]" "connected_form [] ''1.5''" "[]"]
      listNewItem_presence_check [OF session, of "''pen''" "''1.5''" "[]" "connected_form ''pen'' ''1.5''" "[]"]
      listNewItem_presence_check [OF session, of "''pen''" "''1e2''" "[]" "connected_form ''pen'' ''1e2''" "[]"]
      good bad
    by (simp add: fields)
qed


lemma exec_extends: "\<exists>tr'. fst (snd (exec p rs s tr)) = tr @ tr'"
proof (induction p arbitrary: rs s tr)
  case Done
  then show ?case by simp
next
  case (Upd f p)
  then show ?case by simp
next
  case (Say a p)
  from Say [of rs s "tr @ [Note a]"] show ?case by auto
next
  case (New k)
  then show ?case by simp
next
  case (Await q k)
  show ?case
  proof (cases rs)
    case Nil
    then show ?thesis by simp
  next
    case (Cons r rs')
    from Await [of "k r" rs' s "tr @ [Req q]"] Cons show ?thesis by auto
  qed
qed

lemma exec_keeps: "e \<in> set tr \<Longrightarrow> e \<in> set (fst (snd (exec p rs s tr)))"
  using exec_extends [of p rs s tr] by auto

lemma load_loop_progress:
  "(\<exists>rs' tr' loaded'. exec (load_loop c i count loaded ks kf) rs s tr =
        exec (ks loaded') rs' s (tr @ tr'))
   \<or> (\<exists>rs' tr'. exec (load_loop c i count loaded ks kf) rs s tr = exec kf rs' s (tr @ tr'))
   \<or> (\<exists>j g tr'. exec (load_loop c i count loaded ks kf) rs s tr =
        (s, tr @ tr', Await (Items c j) g))"
proof (induction c i count loaded ks kf arbitrary: rs tr rule: load_loop.induct)
  case (1 c i count loaded ks kf)
  let ?run = "exec (load_loop c i count loaded ks kf) rs s tr"
  show ?case
  proof (cases "i \<le> count")
    case False
    then have "?run = exec (ks loaded) rs s (tr @ [])"
      by (simp add: load_loop_exit)
    then show ?thesis by blast
  next
    case inside: True
    show ?thesis
    proof (cases rs)
      case Nil
      with load_loop_wait [OF inside, of c loaded ks kf s tr] show ?thesis by blast
    next
      case (Cons r rs1)
      have failed: "?run = exec kf rs1 s (tr @ [Req (Items c i)])"
        if "\<And>raw n. r = Ok (VItem raw) \<Longrightarrow> toNumber (raw_id raw) \<noteq> Some n"
        using that Cons
        by (auto simp: load_loop_step [OF inside] split: reply.split jsval.split option.split)
      show ?thesis
      proof (cases "\<exists>raw n. r = Ok (VItem raw) \<and> toNumber (raw_id raw) = Some n")
        case False
        then have "?run = exec kf rs1 s (tr @ [Req (Items c i)])"
          by (intro failed) blast
        then show ?thesis by blast
      next
        case True
        then obtain raw n where r: "r = Ok (VItem raw)" and n: "toNumber (raw_id raw) = Some n"
          by blast
        have step: "?run = exec (load_loop c (i + 1) count (loaded @ [to_item raw n]) ks kf)
                      rs1 s (tr @ [Req (Items c i)])"
          using Cons r n by (simp add: load_loop_step [OF inside])
        from "1.IH" [OF inside n, of rs1 "tr @ [Req (Items c i)]"] show ?thesis
          unfolding step by (elim disjE exE) (simp_all, blast+)
      qed
    qed
  qed
qed


lemma loadItems_progress:
  assumes bound: "(if ci \<noteq> None then ci else contract cl) = Some c"
  shows "(\<exists>rs' s' tr'. exec (loadItems ci cl k) rs s tr =
             exec k rs' s' (tr @ Req (ItemCount c) # tr'))
       \<or> (\<exists>q g tr'. exec (loadItems ci cl k) rs s tr =
             (s\<lparr>loading := True\<rparr>, tr @ Req (ItemCount c) # tr', Await q g)
           \<and> (q = ItemCount c \<or> (\<exists>j. q = Items c j)))"
proof (cases rs)
  case Nil
  with loadItems_wait [OF bound, of k s tr] show ?thesis by auto
next
  case (Cons r rs1)
  let ?run = "exec (loadItems ci cl k) rs s tr"
  let ?finally = "Upd (\<lambda>s. s\<lparr>loading := False\<rparr>) k"
  let ?kf = "Say (ConsoleError ''loadItems error:'') ?finally"
  let ?ks = "\<lambda>loaded. Upd (\<lambda>s. s\<lparr>items := rev loaded\<rparr>) ?finally"
  let ?s1 = "s\<lparr>loading := True\<rparr>"
  let ?tr1 = "tr @ [Req (ItemCount c)]"
  have caught: "\<exists>rs' s' tr'. exec ?kf rs2 ?s1 (?tr1 @ tr2) = exec k rs' s' (tr @ Req (ItemCount c) # tr')"
    for rs2 tr2
    by (rule exI [of _ rs2], rule exI [of _ "s\<lparr>loading := False\<rparr>"],
        rule exI [of _ "tr2 @ [Note (ConsoleError ''loadItems error:'')]"]) simp
  have stored: "\<exists>rs' s' tr'. exec (?ks loaded) rs2 ?s1 (?tr1 @ tr2) =
      exec k rs' s' (tr @ Req (ItemCount c) # tr')" for rs2 tr2 loaded
    by (rule exI [of _ rs2], rule exI [of _ "s\<lparr>items := rev loaded, loading := False\<rparr>"],
        rule exI [of _ tr2]) simp
  show ?thesis
  proof (cases "\<exists>n count. r = Ok (VBig n) \<and> toNumber n = Some count")
    case False
    then have "?run = exec ?kf rs1 ?s1 (?tr1 @ [])"
      using Cons
      by (auto simp: loadItems_start [OF bound] split: reply.split jsval.split option.split)
    with caught [of rs1 "[]"] show ?thesis by auto
  next
    case True
    then obtain n count where r: "r = Ok (VBig n)" and count: "toNumber n = Some count"
      by blast
    have start: "?run = exec (load_loop c 1 count [] ?ks ?kf) rs1 ?s1 ?tr1"
      using Cons r count by (simp add: loadItems_start [OF bound] del: One_nat_def)
    from load_loop_progress [of c 1 count "[]" ?ks ?kf rs1 ?s1 ?tr1]
    show ?thesis
    proof (elim disjE exE)
      fix rs' tr' loaded'
      assume "exec (load_loop c 1 count [] ?ks ?kf) rs1 ?s1 ?tr1 = exec (?ks loaded') rs' ?s1 (?tr1 @ tr')"
      with start stored [of loaded' rs' tr'] show ?thesis by auto
    next
      fix rs' tr'
      assume "exec (load_loop c 1 count [] ?ks ?kf) rs1 ?s1 ?tr1 = exec ?kf rs' ?s1 (?tr1 @ tr')"
      with start caught [of rs' tr'] show ?thesis by auto
    next
      fix j g tr'
      assume "exec (load_loop c 1 count [] ?ks ?kf) rs1 ?s1 ?tr1 = (?s1, ?tr1 @ tr', Await (Items c j) g)"
      with start show ?thesis by auto
    qed
  qed
qed

lemma fetch_requests_balance:
  assumes "provider cl = Some p"
  shows "Req (GetBalance p contractAddress)
           \<in> set (fst (snd (exec (fetchContractBalance None cl k) rs s tr)))"
proof (cases rs)
  case Nil
  with assms show ?thesis by (simp add: fetchContractBalance_def)
next
  case (Cons r rs')
  have "Req (GetBalance p contractAddress) \<in> set (tr @ [Req (GetBalance p contractAddress)])"
    by simp
  from exec_keeps [OF this] Cons assms show ?thesis
    by (simp add: fetchContractBalance_def)
qed

lemma refresh_after_settlement:
  assumes bound: "contract cl = Some c" and prov: "provider cl = Some p"
    and run: "exec (loadItems (contract cl) cl (fetchContractBalance None cl k)) rs s tr
                = (s', tr', p')"
  shows "(\<exists>mid. tr' = tr @ Req (ItemCount c) # mid)
       \<and> ((\<exists>q g. p' = Await q g \<and> (q = ItemCount c \<or> (\<exists>j. q = Items c j))
               \<and> s' = s\<lparr>loading := True\<rparr>)
          \<or> Req (GetBalance p contractAddress) \<in> set tr')
       \<and> (rs = [] \<longrightarrow> s' = s\<lparr>loading := True\<rparr> \<and> (\<exists>g. p' = Await (ItemCount c) g))"
proof -
  have b: "(if contract cl \<noteq> None then contract cl else contract cl) = Some c"
    using bound by simp
  have first: "rs = [] \<longrightarrow> s' = s\<lparr>loading := True\<rparr> \<and> (\<exists>g. p' = Await (ItemCount c) g)"
    using loadItems_wait [OF b, of "fetchContractBalance None cl k" s tr] run by auto
  from loadItems_progress [OF b, of "fetchContractBalance None cl k" rs s tr]
  consider (passed) rs1 s1 tr1 where
      "exec (loadItems (contract cl) cl (fetchContractBalance None cl k)) rs s tr =
         exec (fetchContractBalance None cl k) rs1 s1 (tr @ Req (ItemCount c) # tr1)"
    | (reading) q g tr1 where
      "exec (loadItems (contract cl) cl (fetchContractBalance None cl k)) rs s tr =
         (s\<lparr>loading := True\<rparr>, tr @ Req (ItemCount c) # tr1, Await q g)"
      "q = ItemCount c \<or> (\<exists>j. q = Items c j)"
    by blast
  then show ?thesis
  proof cases
    case passed
    have res: "exec (fetchContractBalance None cl k) rs1 s1 (tr @ Req (ItemCount c) # tr1)
                 = (s', tr', p')"
      using passed run by simp
    have "Req (GetBalance p contractAddress) \<in> set tr'"
      using fetch_requests_balance [OF prov, of k rs1 s1 "tr @ Req (ItemCount c) # tr1"]
      by (simp add: res)
    moreover have "\<exists>mid. tr' = tr @ Req (ItemCount c) # mid"
      using exec_extends [of "fetchContractBalance None cl k" rs1 s1 "tr @ Req (ItemCount c) # tr1"]
      by (auto simp: res)
    ultimately show ?thesis using first by blast
  next
    case reading
    with run first show ?thesis by auto
  qed
qed


lemma listNewItem_settled:
  assumes "truthy (account cl)" and "contract cl = Some c" and "itemName cl \<noteq> []"
    and "parseEther (itemPrice cl) = Inr w"
  shows "exec (listNewItem cl) (Ok (VTx t) # Ok u # rs) s tr =
           exec (loadItems (contract cl) cl
                   (fetchContractBalance None cl
                      (Say (Alert ''Item listed successfully!'')
                         (Upd (\<lambda>s. s\<lparr>loading := False\<rparr>) Done))))
             rs (s\<lparr>loading := True, itemName := [], itemPrice := []\<rparr>)
             (tr @ [Req (ListItem c (itemName cl) w), Req (TxWait t)])"
proof -
  have "itemPrice cl \<noteq> []"
    using assms(4) by (auto simp: parseEther_empty)
  with assms show ?thesis by (simp add: listNewItem_def)
qed

lemma buyItem_settled:
  assumes "truthy (account cl)" and "contract cl = Some c" and "parseEther price = Inr w"
  shows "exec (buyItem cl n price) (Ok (VTx t) # Ok u # rs) s tr =
           exec (loadItems (contract cl) cl
                   (fetchContractBalance None cl
                      (Say (Alert ''Purchase completed!'')
                         (Upd (\<lambda>s. s\<lparr>loading := False\<rparr>) Done))))
             rs (s\<lparr>loading := True\<rparr>) (tr @ [Req (BuyItem c n w), Req (TxWait t)])"
  using assms by (simp add: buyItem_def)

lemma fetch_balance_read:
  assumes "provider cl = Some p"
  shows "exec (fetchContractBalance None cl k) (Ok (VBig b) # rs) s tr =
           exec k rs (s\<lparr>contractBalance := Fixed6 (formatEther b)\<rparr>)
             (tr @ [Req (GetBalance p contractAddress)])"
  using assms by (simp add: fetchContractBalance_def)

lemma refresh_completes:
  assumes bound: "contract cl = Some c" and prov: "provider cl = Some p"
    and count: "n < 2 ^ 53" and len: "length raws = n"
    and ids: "\<forall>raw\<in>set raws. raw_id raw < 2 ^ 53"
  shows "exec (loadItems (contract cl) cl (fetchContractBalance None cl k))
           (Ok (VBig n) # map (\<lambda>raw. Ok (VItem raw)) raws @ Ok (VBig b) # rs) s tr =
           exec k rs
             (s\<lparr>items := rev (map (\<lambda>raw. to_item raw (raw_id raw)) raws), loading := False,
                 contractBalance := Fixed6 (formatEther b)\<rparr>)
             (tr @ Req (ItemCount c) # map (\<lambda>j. Req (Items c j)) [1..<Suc n]
                @ [Req (GetBalance p contractAddress)])"
proof -
  have b: "(if contract cl \<noteq> None then contract cl else contract cl) = Some c"
    using bound by simp
  show ?thesis
    by (simp only: loadItems_success [OF b count len ids] fetch_balance_read [OF prov])
      (simp del: upt_Suc)
qed

lemma refresh_count_fails:
  assumes bound: "contract cl = Some c" and prov: "provider cl = Some p"
  shows "exec (loadItems (contract cl) cl (fetchContractBalance None cl k))
           (Throw e # Ok (VBig b) # rs) s tr =
           exec k rs
             (s\<lparr>loading := False, contractBalance := Fixed6 (formatEther b)\<rparr>)
             (tr @ [Req (ItemCount c), Note (ConsoleError ''loadItems error:''),
                    Req (GetBalance p contractAddress)])"
proof -
  have b: "(if contract cl \<noteq> None then contract cl else contract cl) = Some c"
    using bound by simp
  show ?thesis
    by (simp only: loadItems_count_fails [OF b] fetch_balance_read [OF prov]) simp
qed

lemma settlement_refresh:
  assumes session: "truthy (account cl)" "contract cl = Some c" "provider cl = Some p"
  shows "(itemName cl \<noteq> [] \<and> parseEther (itemPrice cl) = Inr w
          \<and> exec (listNewItem cl) (Ok (VTx t) # Ok u # rs) s tr = (s', tr', p') \<longrightarrow>
            (\<exists>mid. tr' = tr @ [Req (ListItem c (itemName cl) w), Req (TxWait t)]
                           @ Req (ItemCount c) # mid)
          \<and> ((\<exists>q g. p' = Await q g \<and> (q = ItemCount c \<or> (\<exists>j. q = Items c j))
                  \<and> items s' = items s \<and> contractBalance s' = contractBalance s)
              \<or> Req (GetBalance p contractAddress) \<in> set tr')
          \<and> (rs = [] \<longrightarrow>
                s' = s\<lparr>loading := True, itemName := [], itemPrice := []\<rparr>
              \<and> (\<exists>g. p' = Await (ItemCount c) g)))
       \<and> (parseEther price = Inr w
          \<and> exec (buyItem cl n price) (Ok (VTx t) # Ok u # rs) s tr = (s', tr', p') \<longrightarrow>
            (\<exists>mid. tr' = tr @ [Req (BuyItem c n w), Req (TxWait t)] @ Req (ItemCount c) # mid)
          \<and> ((\<exists>q g. p' = Await q g \<and> (q = ItemCount c \<or> (\<exists>j. q = Items c j))
                  \<and> items s' = items s \<and> contractBalance s' = contractBalance s)
              \<or> Req (GetBalance p contractAddress) \<in> set tr')
          \<and> (rs = [] \<longrightarrow> s' = s\<lparr>loading := True\<rparr> \<and> (\<exists>g. p' = Await (ItemCount c) g)))
       \<and> (itemName cl \<noteq> [] \<and> parseEther (itemPrice cl) = Inr w \<longrightarrow>
            (count < 2 ^ 53 \<and> length raws = count \<and> (\<forall>raw\<in>set raws. raw_id raw < 2 ^ 53) \<longrightarrow>
               exec (listNewItem cl)
                 (Ok (VTx t) # Ok u # Ok (VBig count) # map (\<lambda>raw. Ok (VItem raw)) raws
                    @ Ok (VBig b) # rs) s tr =
                 (s\<lparr>itemName := [], itemPrice := [],
                     items := rev (map (\<lambda>raw. to_item raw (raw_id raw)) raws),
                     contractBalance := Fixed6 (formatEther b), loading := False\<rparr>,
                  tr @ [Req (ListItem c (itemName cl) w), Req (TxWait t), Req (ItemCount c)]
                     @ map (\<lambda>j. Req (Items c j)) [1..<Suc count]
                     @ [Req (GetBalance p contractAddress),
                        Note (Alert ''Item listed successfully!'')],
                  Done))
          \<and> exec (listNewItem cl) (Ok (VTx t) # Ok u # Throw e # Ok (VBig b) # rs) s tr =
               (s\<lparr>itemName := [], itemPrice := [],
                   contractBalance := Fixed6 (formatEther b), loading := False\<rparr>,
                tr @ [Req (ListItem c (itemName cl) w), Req (TxWait t), Req (ItemCount c),
                      Note (ConsoleError ''loadItems error:''),
                      Req (GetBalance p contractAddress),
                      Note (Alert ''Item listed successfully!'')],
                Done))
       \<and> (parseEther price = Inr w \<longrightarrow>
            (count < 2 ^ 53 \<and> length raws = count \<and> (\<forall>raw\<in>set raws. raw_id raw < 2 ^ 53) \<longrightarrow>
               exec (buyItem cl n price)
                 (Ok (VTx t) # Ok u # Ok (VBig count) # map (\<lambda>raw. Ok (VItem raw)) raws
                    @ Ok (VBig b) # rs) s tr =
                 (s\<lparr>items := rev (map (\<lambda>raw. to_item raw (raw_id raw)) raws),
                     contractBalance := Fixed6 (formatEther b), loading := False\<rparr>,
                  tr @ [Req (BuyItem c n w), Req (TxWait t), Req (ItemCount c)]
                     @ map (\<lambda>j. Req (Items c j)) [1..<Suc count]
                     @ [Req (GetBalance p contractAddress), Note (Alert ''Purchase completed!'')],
                  Done))
          \<and> exec (buyItem cl n price) (Ok (VTx t) # Ok u # Throw e # Ok (VBig b) # rs) s tr =
               (s\<lparr>contractBalance := Fixed6 (formatEther b), loading := False\<rparr>,
                tr @ [Req (BuyItem c n w), Req (TxWait t), Req (ItemCount c),
                      Note (ConsoleError ''loadItems error:''),
                      Req (GetBalance p contractAddress), Note (Alert ''Purchase completed!'')],
                Done))"
proof (intro conjI impI; (elim conjE)?)
  assume form: "itemName cl \<noteq> []" "parseEther (itemPrice cl) = Inr w"
    and run: "exec (listNewItem cl) (Ok (VTx t) # Ok u # rs) s tr = (s', tr', p')"
  note facts = refresh_after_settlement [OF session(2,3)
      run [unfolded listNewItem_settled [OF session(1,2) form]]]
  from facts show "\<exists>mid. tr' = tr @ [Req (ListItem c (itemName cl) w), Req (TxWait t)]
                           @ Req (ItemCount c) # mid"
    by simp
  from facts show "(\<exists>q g. p' = Await q g \<and> (q = ItemCount c \<or> (\<exists>j. q = Items c j))
                  \<and> items s' = items s \<and> contractBalance s' = contractBalance s)
              \<or> Req (GetBalance p contractAddress) \<in> set tr'"
    by auto
  from facts show "s' = s\<lparr>loading := True, itemName := [], itemPrice := []\<rparr>"
    and "\<exists>g. p' = Await (ItemCount c) g" if "rs = []"
    using that by simp_all
next
  assume price: "parseEther price = Inr w"
    and run: "exec (buyItem cl n price) (Ok (VTx t) # Ok u # rs) s tr = (s', tr', p')"
  note facts = refresh_after_settlement [OF session(2,3)
      run [unfolded buyItem_settled [OF session(1,2) price]]]
  from facts show "\<exists>mid. tr' = tr @ [Req (BuyItem c n w), Req (TxWait t)]
                           @ Req (ItemCount c) # mid"
    by simp
  from facts show "(\<exists>q g. p' = Await q g \<and> (q = ItemCount c \<or> (\<exists>j. q = Items c j))
                  \<and> items s' = items s \<and> contractBalance s' = contractBalance s)
              \<or> Req (GetBalance p contractAddress) \<in> set tr'"
    by auto
  from facts show "s' = s\<lparr>loading := True\<rparr>"
    and "\<exists>g. p' = Await (ItemCount c) g" if "rs = []"
    using that by simp_all
next
  assume form: "itemName cl \<noteq> []" "parseEther (itemPrice cl) = Inr w"
    and reads: "count < 2 ^ 53" "length raws = count" "\<forall>raw\<in>set raws. raw_id raw < 2 ^ 53"
  show "exec (listNewItem cl)
          (Ok (VTx t) # Ok u # Ok (VBig count) # map (\<lambda>raw. Ok (VItem raw)) raws
             @ Ok (VBig b) # rs) s tr =
          (s\<lparr>itemName := [], itemPrice := [],
              items := rev (map (\<lambda>raw. to_item raw (raw_id raw)) raws),
              contractBalance := Fixed6 (formatEther b), loading := False\<rparr>,
           tr @ [Req (ListItem c (itemName cl) w), Req (TxWait t), Req (ItemCount c)]
              @ map (\<lambda>j. Req (Items c j)) [1..<Suc count]
              @ [Req (GetBalance p contractAddress), Note (Alert ''Item listed successfully!'')],
           Done)"
    by (simp only: listNewItem_settled [OF session(1,2) form]
        refresh_completes [OF session(2,3) reads]) (simp del: upt_Suc)
next
  assume form: "itemName cl \<noteq> []" "parseEther (itemPrice cl) = Inr w"
  show "exec (listNewItem cl) (Ok (VTx t) # Ok u # Throw e # Ok (VBig b) # rs) s tr =
          (s\<lparr>itemName := [], itemPrice := [],
              contractBalance := Fixed6 (formatEther b), loading := False\<rparr>,
           tr @ [Req (ListItem c (itemName cl) w), Req (TxWait t), Req (ItemCount c),
                 Note (ConsoleError ''loadItems error:''),
                 Req (GetBalance p contractAddress),
                 Note (Alert ''Item listed successfully!'')],
           Done)"
    by (simp only: listNewItem_settled [OF session(1,2) form]
        refresh_count_fails [OF session(2,3)]) simp
next
  assume price: "parseEther price = Inr w"
    and reads: "count < 2 ^ 53" "length raws = count" "\<forall>raw\<in>set raws. raw_id raw < 2 ^ 53"
  show "exec (buyItem cl n price)
          (Ok (VTx t) # Ok u # Ok (VBig count) # map (\<lambda>raw. Ok (VItem raw)) raws
             @ Ok (VBig b) # rs) s tr =
          (s\<lparr>items := rev (map (\<lambda>raw. to_item raw (raw_id raw)) raws),
              contractBalance := Fixed6 (formatEther b), loading := False\<rparr>,
           tr @ [Req (BuyItem c n w), Req (TxWait t), Req (ItemCount c)]
              @ map (\<lambda>j. Req (Items c j)) [1..<Suc count]
              @ [Req (GetBalance p contractAddress), Note (Alert ''Purchase completed!'')],
           Done)"
    by (simp only: buyItem_settled [OF session(1,2) price]
        refresh_completes [OF session(2,3) reads]) (simp del: upt_Suc)
next
  assume price: "parseEther price = Inr w"
  show "exec (buyItem cl n price) (Ok (VTx t) # Ok u # Throw e # Ok (VBig b) # rs) s tr =
          (s\<lparr>contractBalance := Fixed6 (formatEther b), loading := False\<rparr>,
           tr @ [Req (BuyItem c n w), Req (TxWait t), Req (ItemCount c),
                 Note (ConsoleError ''loadItems error:''),
                 Req (GetBalance p contractAddress), Note (Alert ''Purchase completed!'')],
           Done)"
    by (simp only: buyItem_settled [OF session(1,2) price]
        refresh_count_fails [OF session(2,3)]) simp
qed


lemmas machine_eval =
  fire_def handle_action_def effects_def spawn_def resume_def suspended_def is_timeout_def
  Let_def

lemma fire_disconnect:
  assumes "ethereum m"
  shows "fire (AccountsChanged (Some [])) m =
           m\<lparr>view := (view m)\<lparr>account := None, contract := None, items := [],
                                contractBalance := Plain ''0.0''\<rparr>\<rparr>"
  using assms by (simp add: machine_eval handleAccountsChanged_def)

lemma fire_poll_tick:
  assumes "provider (poll m) = Some p"
  shows "fire PollTick m =
           m\<lparr>pending := pending m @ [fetchContractBalance None (poll m) Done],
              history := history m @ [Req (GetBalance p contractAddress)]\<rparr>"
  using assms by (simp add: machine_eval fetchContractBalance_def)

lemma fire_balance_reply:
  assumes "provider (poll m) = Some p"
  shows "fire (Reply (length ps) (Ok (VBig b)))
           (m\<lparr>pending := ps @ [fetchContractBalance None (poll m) Done]\<rparr>) =
         m\<lparr>pending := ps, view := (view m)\<lparr>contractBalance := Fixed6 (formatEther b)\<rparr>\<rparr>"
  using assms by (simp add: machine_eval fetchContractBalance_def)


lemma effects_poll_tracks_provider:
  assumes "provider (poll m1) = provider before"
  shows "provider (poll (effects before m1)) = provider (view (effects before m1))"
  using assms
  by (simp add: effects_def spawn_def Let_def loadItems_def fetchContractBalance_def
      split: option.split prod.split)

lemma spawn_poll: "poll (spawn p m) = poll m"
  by (simp add: spawn_def split: prod.split)

lemma resume_poll: "poll (resume i r m) = poll m"
  by (simp add: resume_def split: prod.split prog.split)

lemma handle_action_poll: "poll (handle_action a m) = poll m"
  by (cases a) (simp_all add: handle_action_def spawn_poll resume_poll)

lemma fire_poll_tracks_provider:
  assumes "provider (poll m) = provider (view m)"
  shows "provider (poll (fire a m)) = provider (view (fire a m))"
  unfolding fire_def
  by (rule effects_poll_tracks_provider) (simp add: handle_action_poll assms)

lemma run_snoc: "run (as @ [a]) m = fire a (run as m)"
  by (simp add: run_def)

lemma run_poll_tracks_provider:
  "provider (poll (run as (mount eth))) = provider (view (run as (mount eth)))"
proof (induction as rule: rev_induct)
  case Nil
  show ?case
    by (simp add: run_def mount_def spawn_def init_def init_store_def split: prod.split)
next
  case (snoc a as)
  then show ?case
    by (simp only: run_snoc fire_poll_tracks_provider)
qed


text \<open>
  Claim C9. An empty \<^verbatim>\<open>accountsChanged\<close> changes the account, the contract handle, the
  listing cache and the balance text and nothing else: the provider cell, the armed balance
  interval and the suspended handlers stay as they are. The next tick of the interval
  therefore still reads the contract balance through the provider it was armed on, and the
  reply overwrites the balance text while the account is absent.
\<close>

theorem disconnect_leaves_provider_and_poll:
  assumes eth: "ethereum m" and armed: "provider (poll m) = Some p"
  shows "fire (AccountsChanged (Some [])) m =
           m\<lparr>view := (view m)\<lparr>account := None, contract := None, items := [],
                                contractBalance := Plain ''0.0''\<rparr>\<rparr>
       \<and> run [AccountsChanged (Some []), PollTick] m =
           m\<lparr>view := (view m)\<lparr>account := None, contract := None, items := [],
                                contractBalance := Plain ''0.0''\<rparr>,
              pending := pending m @ [fetchContractBalance None (poll m) Done],
              history := history m @ [Req (GetBalance p contractAddress)]\<rparr>
       \<and> run [AccountsChanged (Some []), PollTick, Reply (length (pending m)) (Ok (VBig b))] m =
           m\<lparr>view := (view m)\<lparr>account := None, contract := None, items := [],
                                contractBalance := Fixed6 (formatEther b)\<rparr>,
              history := history m @ [Req (GetBalance p contractAddress)]\<rparr>"
  using eth armed
  by (simp add: run_def machine_eval handleAccountsChanged_def fetchContractBalance_def)

lemmas handler_eval =
  init_def connectWallet_def ensureNetwork_def setupProviderAndContract_def
  handleAccountsChanged_def fetchContractBalance_def loadItems_def listNewItem_def buyItem_def
  list_failed_def buy_failed_def connect_failed_def truthy_def controls_disabled_def
  submit_enabled_def buy_enabled_def toNumber_def load_loop_exit in_flight_def
  accounts_length_def accounts_first_def price_admitted_def is_digit_def
  strip_trailing_zeros_def

lemma authorised_session_facts:
  "ethereum authorised_session" "provider (poll authorised_session) = Some 0"
  "account (view authorised_session) = Some ''0xaa''"
  "provider (view authorised_session) = Some 0"
  by (simp_all add: authorised_session_def run_def mount_def init_store_def machine_eval
      handler_eval)

theorem disconnect_leaves_provider_and_poll_witness:
  "provider (view (run [AccountsChanged (Some []), PollTick,
        Reply (length (pending authorised_session)) (Ok (VBig 1500000000000000000))]
        authorised_session)) = Some 0
   \<and> account (view (run [AccountsChanged (Some []), PollTick,
        Reply (length (pending authorised_session)) (Ok (VBig 1500000000000000000))]
        authorised_session)) = None
   \<and> contractBalance (view (run [AccountsChanged (Some []), PollTick,
        Reply (length (pending authorised_session)) (Ok (VBig 1500000000000000000))]
        authorised_session)) = Fixed6 ''1.5''"
proof -
  have shown: "formatEther 1500000000000000000 = ''1.5''"
    by (simp add: conversion_eval)
  show ?thesis
    using disconnect_leaves_provider_and_poll [OF authorised_session_facts(1,2),
        of 1500000000000000000] authorised_session_facts(4) shown
    by simp
qed


lemma run_append: "run (as @ bs) m = run bs (run as m)"
  by (simp add: run_def)

lemma parseEther_one: "parseEther ''1'' = Inr 1000000000000000000"
  by (simp add: conversion_eval)

lemma form_filled_reached:
  "run form_filled (mount True) =
     \<lparr> ethereum = True,
       view = init_store\<lparr>account := Some ''0xaa'', provider := Some 0, contract := Some 1,
                heap := 2, itemName := ''pen'', itemPrice := ''1''\<rparr>,
       pending =
         [fetchContractBalance (Some 0) init_store
            (Upd (\<lambda>s. s\<lparr>account := Some (hd [''0xaa''])\<rparr>) Done),
          fetchContractBalance None
            (init_store\<lparr>account := Some ''0xaa'', provider := Some 0, contract := Some 1,
               heap := 2\<rparr>) Done],
       poll = init_store\<lparr>account := Some ''0xaa'', provider := Some 0, contract := Some 1,
                heap := 2\<rparr>,
       timers = 0,
       history = [Req Eth_accounts, Req (GetBalance 0 contractAddress), Req (ItemCount 1),
                  Req (GetBalance 0 contractAddress)] \<rparr>"
  by (simp add: form_filled_def run_def mount_def init_store_def machine_eval handler_eval)


lemma fire_submit:
  assumes "submit_enabled (view m)" and "contract (view m) = Some c"
    and "parseEther (itemPrice (view m)) = Inr w"
  shows "map in_flight (pending (fire SubmitForm m)) = map in_flight (pending m) @ [True]"
    and "history (fire SubmitForm m) = history m @ [Req (ListItem c (itemName (view m)) w)]"
  using assms
  by (simp_all add: machine_eval listNewItem_def submit_enabled_def controls_disabled_def
      in_flight_def)

lemma spawn_record:
  "spawn p \<lparr>ethereum = e, view = v, pending = ps, poll = q, timers = t, history = h\<rparr> =
     (case exec p [] v [] of
        (s, tr, p') \<Rightarrow>
          \<lparr>ethereum = e, view = s, pending = ps @ suspended p', poll = q,
           timers = t + length (filter is_timeout tr), history = h @ tr\<rparr>)"
  by (simp add: spawn_def split: prod.split)

lemma resume_record:
  "resume i r \<lparr>ethereum = e, view = v, pending = ps, poll = q, timers = t, history = h\<rparr> =
     (if i < length ps then
        (case ps ! i of
           Await rq k \<Rightarrow>
             (case exec (k r) [] v [] of
                (s, tr, p') \<Rightarrow>
                  \<lparr>ethereum = e, view = s,
                   pending = take i ps @ suspended p' @ drop (Suc i) ps, poll = q,
                   timers = t + length (filter is_timeout tr), history = h @ tr\<rparr>)
         | _ \<Rightarrow> \<lparr>ethereum = e, view = v, pending = ps, poll = q, timers = t, history = h\<rparr>)
      else \<lparr>ethereum = e, view = v, pending = ps, poll = q, timers = t, history = h\<rparr>)"
  by (simp add: resume_def split: prod.split prog.split)

lemma effects_record:
  "effects before \<lparr>ethereum = e, view = v, pending = ps, poll = q, timers = t, history = h\<rparr> =
     (if contract v \<noteq> contract before \<and> contract v \<noteq> None then
        (case spawn (fetchContractBalance None v Done)
                (spawn (loadItems (contract v) v Done)
                   \<lparr>ethereum = e, view = v, pending = ps, poll = q, timers = t, history = h\<rparr>) of
           m1 \<Rightarrow> if provider v \<noteq> provider before then m1\<lparr>poll := v\<rparr> else m1)
      else if provider v \<noteq> provider before
           then \<lparr>ethereum = e, view = v, pending = ps, poll = v, timers = t, history = h\<rparr>
           else \<lparr>ethereum = e, view = v, pending = ps, poll = q, timers = t, history = h\<rparr>)"
  by (simp add: effects_def Let_def)

lemma fire_record:
  "fire a \<lparr>ethereum = e, view = v, pending = ps, poll = q, timers = t, history = h\<rparr> =
     effects v (handle_action a
       \<lparr>ethereum = e, view = v, pending = ps, poll = q, timers = t, history = h\<rparr>)"
  by (simp add: fire_def)

lemmas machine_step =
  fire_record effects_record spawn_record resume_record handle_action_def suspended_def
  is_timeout_def

lemma refresh_reopens_form:
  "snapshot (run switch_during_submit (mount True)) =
     (init_store\<lparr>account := Some ''0xbb'', provider := Some 2, contract := Some 3, heap := 4,
        itemName := ''pen'', itemPrice := ''1''\<rparr>,
      [False, False, True, False, False],
      [Req Eth_accounts, Req (GetBalance 0 contractAddress), Req (ItemCount 1),
       Req (GetBalance 0 contractAddress), Req (ListItem 1 ''pen'' 1000000000000000000),
       Req (GetBalance 2 contractAddress), Req (ItemCount 3),
       Req (GetBalance 2 contractAddress)])"
  unfolding switch_during_submit_def run_append form_filled_reached
  by (simp add: run_def init_store_def machine_step handler_eval parseEther_one snapshot_def Let_def)


text \<open>
  Claim C7 does not hold of the component. The only gate is the \<^verbatim>\<open>disabled\<close> attribute of
  the buttons, driven by the \<open>loading\<close> flag that \<^verbatim>\<open>loadItems\<close> shares with the mutating
  handlers. In the run below the form is submitted, the wallet switches account while the
  \<^verbatim>\<open>listItem\<close> call is pending, the refresh started for the new contract handle ends and
  sets \<open>loading\<close> to false, and the form is submitted again: the second submission is
  accepted and a second \<^verbatim>\<open>listItem\<close> call is issued while the first is still in flight.
\<close>

theorem second_submit_while_in_flight:
  "snapshot (run switch_during_submit (mount True)) =
     (init_store\<lparr>account := Some ''0xbb'', provider := Some 2, contract := Some 3, heap := 4,
        itemName := ''pen'', itemPrice := ''1''\<rparr>,
      [False, False, True, False, False],
      [Req Eth_accounts, Req (GetBalance 0 contractAddress), Req (ItemCount 1),
       Req (GetBalance 0 contractAddress), Req (ListItem 1 ''pen'' 1000000000000000000),
       Req (GetBalance 2 contractAddress), Req (ItemCount 3),
       Req (GetBalance 2 contractAddress)])
   \<and> loading (view (run switch_during_submit (mount True))) = False
   \<and> submit_enabled (view (run switch_during_submit (mount True)))
   \<and> map in_flight (pending (run (switch_during_submit @ [SubmitForm]) (mount True))) =
       [False, False, True, False, False, True]
   \<and> history (run (switch_during_submit @ [SubmitForm]) (mount True)) =
       [Req Eth_accounts, Req (GetBalance 0 contractAddress), Req (ItemCount 1),
        Req (GetBalance 0 contractAddress), Req (ListItem 1 ''pen'' 1000000000000000000),
        Req (GetBalance 2 contractAddress), Req (ItemCount 3),
        Req (GetBalance 2 contractAddress), Req (ListItem 3 ''pen'' 1000000000000000000)]"
proof -
  let ?m = "run switch_during_submit (mount True)"
  note snap = refresh_reopens_form
  have seen: "view ?m = init_store\<lparr>account := Some ''0xbb'', provider := Some 2,
        contract := Some 3, heap := 4, itemName := ''pen'', itemPrice := ''1''\<rparr>"
    and flights: "map in_flight (pending ?m) = [False, False, True, False, False]"
    and asked: "history ?m =
      [Req Eth_accounts, Req (GetBalance 0 contractAddress), Req (ItemCount 1),
       Req (GetBalance 0 contractAddress), Req (ListItem 1 ''pen'' 1000000000000000000),
       Req (GetBalance 2 contractAddress), Req (ItemCount 3),
       Req (GetBalance 2 contractAddress)]"
    using snap by (simp_all add: snapshot_def)
  have idle: "loading (view ?m) = False"
    by (simp add: seen init_store_def)
  have enabled: "submit_enabled (view ?m)"
    by (simp add: seen init_store_def submit_enabled_def controls_disabled_def truthy_def
        price_admitted_def is_digit_def)
  have handle: "contract (view ?m) = Some 3"
    by (simp add: seen)
  have amount: "parseEther (itemPrice (view ?m)) = Inr 1000000000000000000"
    by (simp add: seen parseEther_one)
  have name: "itemName (view ?m) = ''pen''"
    by (simp add: seen)
  have again: "run (switch_during_submit @ [SubmitForm]) (mount True) = fire SubmitForm ?m"
    by (simp add: run_snoc)
  show ?thesis
    using snap idle enabled
    by (simp add: again fire_submit [OF enabled handle amount] flights asked name)
qed


lemma preserving_id: "preserving (\<lambda>s. s)"
  by (simp add: preserving_def)

lemma preserving_comp: "preserving f \<Longrightarrow> preserving acc \<Longrightarrow> preserving (f \<circ> acc)"
  by (simp add: preserving_def)

lemma preserving_setter:
  "preserving (loading_update f1)" "preserving (items_update f2)"
  "preserving (contractBalance_update f3)" "preserving (account_update f4)"
  "preserving (itemName_update f5)" "preserving (itemPrice_update f6)"
  "preserving (contract_update (\<lambda>_. None))"
  by (simp_all add: preserving_def bound_ok_def)

lemma preserving_bind:
  "preserving (g \<circ> ((\<lambda>s. s\<lparr>contract := Some c\<rparr>) \<circ> ((\<lambda>s. s\<lparr>heap := Suc (heap s)\<rparr>) \<circ>
     ((\<lambda>s. s\<lparr>provider := Some p\<rparr>) \<circ> acc))))"
  if "\<And>s. provider (g s) = provider s"
  using that by (simp add: preserving_def bound_ok_def)

lemmas preserving_rules = preserving_id preserving_comp preserving_setter

lemma keeps_fetch:
  assumes "preserving acc" and "\<And>acc. preserving acc \<Longrightarrow> keeps_bound k acc"
  shows "keeps_bound (fetchContractBalance prov cl k) acc"
  using assms
  by (auto simp: fetchContractBalance_def preserving_rules split: option.split reply.split jsval.split)

lemma keeps_load_loop:
  assumes "preserving acc" and "\<And>acc loaded. preserving acc \<Longrightarrow> keeps_bound (ks loaded) acc"
    and "\<And>acc. preserving acc \<Longrightarrow> keeps_bound kf acc"
  shows "keeps_bound (load_loop c i count loaded ks kf) acc"
  using assms
proof (induction c i count loaded ks kf arbitrary: acc rule: load_loop.induct)
  case (1 c i count loaded ks kf)
  show ?case
  proof (cases "i \<le> count")
    case False
    then show ?thesis using "1.prems" by (simp add: load_loop_exit)
  next
    case True
    have "keeps_bound (case r of
             Ok (VItem raw) \<Rightarrow>
               (case toNumber (raw_id raw) of
                  None \<Rightarrow> kf
                | Some n \<Rightarrow> load_loop c (i + 1) count (loaded @ [to_item raw n]) ks kf)
           | _ \<Rightarrow> kf) (\<lambda>s. s)" for r
      using "1.IH" [OF True _ preserving_id "1.prems"(2,3)] "1.prems"(3) [OF preserving_id]
      by (auto split: reply.split jsval.split option.split)
    with True "1.prems"(1) show ?thesis
      by (subst load_loop.simps) simp
  qed
qed

lemma keeps_loadItems:
  assumes "preserving acc" and "\<And>acc. preserving acc \<Longrightarrow> keeps_bound k acc"
  shows "keeps_bound (loadItems ci cl k) acc"
  using assms
  by (auto simp: loadItems_def Let_def preserving_rules
      intro!: keeps_load_loop split: option.split reply.split jsval.split)


lemma keeps_setup:
  assumes acc: "preserving acc" and k: "\<And>acc. preserving acc \<Longrightarrow> keeps_bound k acc"
  shows "keeps_bound (setupProviderAndContract eth cl selectedAccount k) acc"
proof (cases eth)
  case False
  then show ?thesis by (simp add: setupProviderAndContract_def k [OF acc])
next
  case True
  have bound: "preserving ((\<lambda>s. s\<lparr>contract := Some c\<rparr>) \<circ> ((\<lambda>s. s\<lparr>heap := Suc (heap s)\<rparr>) \<circ>
      ((\<lambda>s. s\<lparr>provider := Some p\<rparr>) \<circ> ((\<lambda>s. s\<lparr>heap := Suc (heap s)\<rparr>) \<circ> acc))))" for c p
    by (simp add: preserving_def bound_ok_def)
  have named: "preserving ((\<lambda>s. s\<lparr>account := selectedAccount\<rparr>) \<circ>
      ((\<lambda>s. s\<lparr>contract := Some c\<rparr>) \<circ> ((\<lambda>s. s\<lparr>heap := Suc (heap s)\<rparr>) \<circ>
      ((\<lambda>s. s\<lparr>provider := Some p\<rparr>) \<circ> ((\<lambda>s. s\<lparr>heap := Suc (heap s)\<rparr>) \<circ> acc)))))" for c p
    by (simp add: preserving_def bound_ok_def)
  show ?thesis
    using True by (simp add: setupProviderAndContract_def keeps_fetch [OF bound k]
        keeps_fetch [OF named k])
qed

lemma keeps_connect_failed: "preserving acc \<Longrightarrow> keeps_bound connect_failed acc"
  by (simp add: connect_failed_def)

lemma keeps_ensureNetwork:
  assumes "preserving acc" and "keeps_bound k (\<lambda>s. s)" and "keeps_bound kf (\<lambda>s. s)"
  shows "keeps_bound (ensureNetwork k kf) acc"
  using assms by (auto simp: ensureNetwork_def preserving_id split: reply.split)

lemma keeps_connectWallet: "preserving acc \<Longrightarrow> keeps_bound (connectWallet eth cl) acc"
  by (auto simp: connectWallet_def keeps_connect_failed preserving_rules
      intro!: keeps_ensureNetwork keeps_setup split: reply.split js_property.split)

lemma keeps_init: "preserving acc \<Longrightarrow> keeps_bound (init eth cl) acc"
  by (auto simp: init_def preserving_rules intro!: keeps_setup
      split: reply.split js_property.split)

lemma keeps_handleAccountsChanged:
  "preserving acc \<Longrightarrow> keeps_bound (handleAccountsChanged eth cl accounts) acc"
  by (auto simp: handleAccountsChanged_def preserving_rules intro!: keeps_setup)

lemma keeps_list_failed: "preserving acc \<Longrightarrow> keeps_bound (list_failed e) acc"
  by (simp add: list_failed_def preserving_rules)

lemma keeps_buy_failed: "preserving acc \<Longrightarrow> keeps_bound (buy_failed e) acc"
  by (simp add: buy_failed_def preserving_rules)

lemma keeps_listNewItem: "preserving acc \<Longrightarrow> keeps_bound (listNewItem cl) acc"
  by (auto simp: listNewItem_def keeps_list_failed preserving_rules
      intro!: keeps_loadItems keeps_fetch split: sum.split reply.split jsval.split)

lemma keeps_buyItem: "preserving acc \<Longrightarrow> keeps_bound (buyItem cl n price) acc"
  by (auto simp: buyItem_def keeps_buy_failed preserving_rules
      intro!: keeps_loadItems keeps_fetch split: sum.split reply.split jsval.split)


lemma exec_keeps_bound:
  assumes "keeps_bound p acc" and "bound_ok s0" and "exec p [] (acc s0) tr = (s', tr', p')"
  shows "bound_ok s' \<and> resumable p'"
  using assms
proof (induction p arbitrary: acc tr)
  case Done
  then show ?case by (auto simp: preserving_def resumable_def)
next
  case (Upd f p)
  have keeps: "keeps_bound p (f \<circ> acc)"
    using Upd.prems(1) by simp
  have run: "exec p [] ((f \<circ> acc) s0) tr = (s', tr', p')"
    using Upd.prems(3) by simp
  show ?case
    by (rule Upd.IH [OF keeps Upd.prems(2) run])
next
  case (Say a p)
  have keeps: "keeps_bound p acc"
    using Say.prems(1) by simp
  have run: "exec p [] (acc s0) (tr @ [Note a]) = (s', tr', p')"
    using Say.prems(3) by simp
  show ?case
    by (rule Say.IH [OF keeps Say.prems(2) run])
next
  case (New k)
  let ?acc = "(\<lambda>s. s\<lparr>heap := Suc (heap s)\<rparr>) \<circ> acc"
  have keeps: "keeps_bound (k (heap (acc s0))) ?acc"
    using New.prems(1) by simp
  have run: "exec (k (heap (acc s0))) [] (?acc s0) tr = (s', tr', p')"
    using New.prems(3) by simp
  have "k (heap (acc s0)) \<in> range k"
    by simp
  from New.IH [OF this keeps New.prems(2) run] show ?case .
next
  case (Await q k)
  then show ?case by (auto simp: preserving_def resumable_def)
qed

lemma spawn_ok:
  assumes "machine_ok m" and "keeps_bound p (\<lambda>s. s)"
  shows "machine_ok (spawn p m)"
proof -
  obtain s' tr' p' where run: "exec p [] (view m) [] = (s', tr', p')"
    by (cases "exec p [] (view m) []") auto
  from exec_keeps_bound [OF assms(2), of "view m" "[]" s' tr' p'] run assms(1)
  have "bound_ok s'" and "resumable p'"
    by (simp_all add: machine_ok_def)
  with assms(1) run show ?thesis
    by (auto simp: machine_ok_def spawn_def suspended_def split: prog.splits)
qed

lemma resume_ok:
  assumes "machine_ok m"
  shows "machine_ok (resume i r m)"
proof (cases "i < length (pending m)")
  case False
  with assms show ?thesis by (simp add: resume_def)
next
  case True
  show ?thesis
  proof (cases "\<exists>q k. pending m ! i = Await q k")
    case False
    with True assms show ?thesis by (auto simp: resume_def split: prog.split)
  next
    case yes: True
    then obtain q k where at: "pending m ! i = Await q k" by blast
    have "resumable (pending m ! i)"
      using assms True by (simp add: machine_ok_def)
    then have next_ok: "keeps_bound (k r) (\<lambda>s. s)"
      by (simp add: at resumable_def)
    obtain s' tr' p' where run: "exec (k r) [] (view m) [] = (s', tr', p')"
      by (cases "exec (k r) [] (view m) []") auto
    from exec_keeps_bound [OF next_ok, of "view m" "[]" s' tr' p'] run assms
    have "bound_ok s'" and "resumable p'"
      by (simp_all add: machine_ok_def)
    moreover have "\<forall>p\<in>set (take i (pending m)) \<union> set (drop (Suc i) (pending m)). resumable p"
      using assms by (auto simp: machine_ok_def dest: in_set_takeD in_set_dropD)
    ultimately show ?thesis
      using True at run
      by (auto simp: machine_ok_def resume_def suspended_def split: prog.splits)
  qed
qed

lemma handle_action_ok:
  assumes "machine_ok m"
  shows "machine_ok (handle_action a m)"
proof (cases a)
  case (TypeName v)
  with assms show ?thesis by (simp add: handle_action_def machine_ok_def bound_ok_def)
next
  case (TypePrice v)
  with assms show ?thesis by (simp add: handle_action_def machine_ok_def bound_ok_def)
next
  case TimerFired
  with assms show ?thesis
    by (auto simp: handle_action_def machine_ok_def preserving_id
        intro!: spawn_ok [unfolded machine_ok_def] keeps_fetch keeps_loadItems)
qed (use assms in \<open>simp_all add: handle_action_def preserving_id spawn_ok resume_ok
      keeps_connectWallet keeps_listNewItem keeps_buyItem keeps_handleAccountsChanged
      keeps_fetch\<close>)


lemma poll_update_ok: "machine_ok m \<Longrightarrow> machine_ok (m\<lparr>poll := cl\<rparr>)"
  by (simp add: machine_ok_def)

lemma effects_ok:
  assumes "machine_ok m"
  shows "machine_ok (effects before m)"
proof -
  have "machine_ok (spawn (fetchContractBalance None (view m) Done)
                      (spawn (loadItems (contract (view m)) (view m) Done) m))"
    by (intro spawn_ok assms keeps_fetch keeps_loadItems) (simp_all add: preserving_id)
  with assms show ?thesis
    by (simp add: effects_def Let_def poll_update_ok)
qed

lemma fire_ok: "machine_ok m \<Longrightarrow> machine_ok (fire a m)"
  by (simp add: fire_def effects_ok handle_action_ok)

lemma mount_ok: "machine_ok (mount eth)"
proof -
  have "machine_ok \<lparr>ethereum = eth, view = init_store, pending = [], poll = init_store,
      timers = 0, history = []\<rparr>"
    by (simp add: machine_ok_def bound_ok_def init_store_def)
  then show ?thesis
    unfolding mount_def by (rule spawn_ok) (simp add: keeps_init preserving_id)
qed

lemma run_ok: "machine_ok (run as (mount eth))"
  by (induction as rule: rev_induct) (simp_all add: run_def mount_ok fire_ok)

lemma reachable_contract_has_provider:
  assumes "contract (view (run as (mount eth))) = Some c"
  shows "\<exists>p. provider (view (run as (mount eth))) = Some p"
  using run_ok [of as eth] assms by (auto simp: machine_ok_def bound_ok_def)


text \<open>
  Claim C4. Let \<open>cl\<close> be a state the component has rendered, with an account and a
  contract handle bound; then a provider is bound as well. Once the transaction of
  \<^verbatim>\<open>listNewItem\<close> or \<^verbatim>\<open>buyItem\<close> has settled, the next request is the item count read of
  a full listings refresh, issued while the cached listings and the balance text are still
  those from before the operation. When the reads succeed, the handler replaces the cache
  by the reversed list of all converted listings, then reads the contract balance and
  stores it, and ends; when the count read throws, the cache stays and the balance is read
  and stored all the same. Whatever the ledger answers, the handler is either still waiting
  for a read of the listings refresh, with the cache untouched, or has requested the
  balance as well.
\<close>

theorem settlement_triggers_refresh:
  assumes rendered: "cl = view (run as (mount eth))"
    and session: "truthy (account cl)" "contract cl = Some c"
  shows "\<exists>p. provider cl = Some p \<and>
    ((itemName cl \<noteq> [] \<and> parseEther (itemPrice cl) = Inr w
              \<and> exec (listNewItem cl) (Ok (VTx t) # Ok u # rs) s tr = (s', tr', p') \<longrightarrow>
                (\<exists>mid. tr' = tr @ [Req (ListItem c (itemName cl) w), Req (TxWait t)]
                               @ Req (ItemCount c) # mid)
              \<and> ((\<exists>q g. p' = Await q g \<and> (q = ItemCount c \<or> (\<exists>j. q = Items c j))
                      \<and> items s' = items s \<and> contractBalance s' = contractBalance s)
                  \<or> Req (GetBalance p contractAddress) \<in> set tr')
              \<and> (rs = [] \<longrightarrow>
                    s' = s\<lparr>loading := True, itemName := [], itemPrice := []\<rparr>
                  \<and> (\<exists>g. p' = Await (ItemCount c) g)))
           \<and> (parseEther price = Inr w
              \<and> exec (buyItem cl n price) (Ok (VTx t) # Ok u # rs) s tr = (s', tr', p') \<longrightarrow>
                (\<exists>mid. tr' = tr @ [Req (BuyItem c n w), Req (TxWait t)] @ Req (ItemCount c) # mid)
              \<and> ((\<exists>q g. p' = Await q g \<and> (q = ItemCount c \<or> (\<exists>j. q = Items c j))
                      \<and> items s' = items s \<and> contractBalance s' = contractBalance s)
                  \<or> Req (GetBalance p contractAddress) \<in> set tr')
              \<and> (rs = [] \<longrightarrow> s' = s\<lparr>loading := True\<rparr> \<and> (\<exists>g. p' = Await (ItemCount c) g)))
           \<and> (itemName cl \<noteq> [] \<and> parseEther (itemPrice cl) = Inr w \<longrightarrow>
                (count < 2 ^ 53 \<and> length raws = count \<and> (\<forall>raw\<in>set raws. raw_id raw < 2 ^ 53) \<longrightarrow>
                   exec (listNewItem cl)
                     (Ok (VTx t) # Ok u # Ok (VBig count) # map (\<lambda>raw. Ok (VItem raw)) raws
                        @ Ok (VBig b) # rs) s tr =
                     (s\<lparr>itemName := [], itemPrice := [],
                         items := rev (map (\<lambda>raw. to_item raw (raw_id raw)) raws),
                         contractBalance := Fixed6 (formatEther b), loading := False\<rparr>,
                      tr @ [Req (ListItem c (itemName cl) w), Req (TxWait t), Req (ItemCount c)]
                         @ map (\<lambda>j. Req (Items c j)) [1..<Suc count]
                         @ [Req (GetBalance p contractAddress),
                            Note (Alert ''Item listed successfully!'')],
                      Done))
              \<and> exec (listNewItem cl) (Ok (VTx t) # Ok u # Throw e # Ok (VBig b) # rs) s tr =
                   (s\<lparr>itemName := [], itemPrice := [],
                       contractBalance := Fixed6 (formatEther b), loading := False\<rparr>,
                    tr @ [Req (ListItem c (itemName cl) w), Req (TxWait t), Req (ItemCount c),
                          Note (ConsoleError ''loadItems error:''),
                          Req (GetBalance p contractAddress),
                          Note (Alert ''Item listed successfully!'')],
                    Done))
           \<and> (parseEther price = Inr w \<longrightarrow>
                (count < 2 ^ 53 \<and> length raws = count \<and> (\<forall>raw\<in>set raws. raw_id raw < 2 ^ 53) \<longrightarrow>
                   exec (buyItem cl n price)
                     (Ok (VTx t) # Ok u # Ok (VBig count) # map (\<lambda>raw. Ok (VItem raw)) raws
                        @ Ok (VBig b) # rs) s tr =
                     (s\<lparr>items := rev (map (\<lambda>raw. to_item raw (raw_id raw)) raws),
                         contractBalance := Fixed6 (formatEther b), loading := False\<rparr>,
                      tr @ [Req (BuyItem c n w), Req (TxWait t), Req (ItemCount c)]
                         @ map (\<lambda>j. Req (Items c j)) [1..<Suc count]
                         @ [Req (GetBalance p contractAddress), Note (Alert ''Purchase completed!'')],
                      Done))
              \<and> exec (buyItem cl n price) (Ok (VTx t) # Ok u # Throw e # Ok (VBig b) # rs) s tr =
                   (s\<lparr>contractBalance := Fixed6 (formatEther b), loading := False\<rparr>,
                    tr @ [Req (BuyItem c n w), Req (TxWait t), Req (ItemCount c),
                          Note (ConsoleError ''loadItems error:''),
                          Req (GetBalance p contractAddress), Note (Alert ''Purchase completed!'')],
                    Done)))"
proof -
  from reachable_contract_has_provider [of as eth c] rendered session(2)
  obtain p where bound: "provider cl = Some p"
    by auto
  show ?thesis
    by (rule exI [of _ p]) (rule conjI [OF bound settlement_refresh [OF session bound]])
qed


theorem settlement_triggers_refresh_witness:
  "fst (exec (listNewItem (view (run form_filled (mount True)))) [Ok (VTx 1), Ok VUnit]
          (view (run form_filled (mount True))) []) =
     (view (run form_filled (mount True)))\<lparr>loading := True, itemName := [], itemPrice := []\<rparr>
   \<and> fst (exec (buyItem (view (run form_filled (mount True))) 3 ''1.5'') [Ok (VTx 2), Ok VUnit]
          (view (run form_filled (mount True))) []) =
     (view (run form_filled (mount True)))\<lparr>loading := True\<rparr>
   \<and> exec (listNewItem (view (run form_filled (mount True))))
       (Ok (VTx 1) # Ok VUnit # Ok (VBig 3) # map (\<lambda>raw. Ok (VItem raw)) sample_raws
          @ Ok (VBig 1500000000000000000) # [])
       (view (run form_filled (mount True))) [] =
     ((view (run form_filled (mount True)))\<lparr>itemName := [], itemPrice := [],
         items := rev (map (\<lambda>raw. to_item raw (raw_id raw)) sample_raws),
         contractBalance := Fixed6 (formatEther 1500000000000000000), loading := False\<rparr>,
      [Req (ListItem 1 ''pen'' 1000000000000000000), Req (TxWait 1), Req (ItemCount 1),
       Req (Items 1 1), Req (Items 1 2), Req (Items 1 3), Req (GetBalance 0 contractAddress),
       Note (Alert ''Item listed successfully!'')],
      Done)
   \<and> exec (buyItem (view (run form_filled (mount True))) 3 ''1.5'')
       (Ok (VTx 2) # Ok VUnit # Ok (VBig 3) # map (\<lambda>raw. Ok (VItem raw)) sample_raws
          @ Ok (VBig 1500000000000000000) # [])
       (view (run form_filled (mount True))) [] =
     ((view (run form_filled (mount True)))\<lparr>
         items := rev (map (\<lambda>raw. to_item raw (raw_id raw)) sample_raws),
         contractBalance := Fixed6 (formatEther 1500000000000000000), loading := False\<rparr>,
      [Req (BuyItem 1 3 1500000000000000000), Req (TxWait 2), Req (ItemCount 1),
       Req (Items 1 1), Req (Items 1 2), Req (Items 1 3), Req (GetBalance 0 contractAddress),
       Note (Alert ''Purchase completed!'')],
      Done)"
proof -
  let ?cl = "view (run form_filled (mount True))"
  let ?X = "exec (listNewItem ?cl) [Ok (VTx 1), Ok VUnit] ?cl []"
  have session: "truthy (account ?cl)" "contract ?cl = Some 1"
    by (simp_all add: form_filled_reached truthy_def)
  have known: "provider ?cl = Some 0"
    by (simp add: form_filled_reached)
  have form: "itemName ?cl = ''pen''" "itemPrice ?cl = ''1''"
    by (simp_all add: form_filled_reached)
  have amount: "parseEther ''1.5'' = Inr 1500000000000000000"
    by (simp add: conversion_eval)
  let ?Y = "exec (buyItem ?cl 3 ''1.5'') [Ok (VTx 2), Ok VUnit] ?cl []"
  have listed: "?X = (fst ?X, fst (snd ?X), snd (snd ?X))"
    and bought: "?Y = (fst ?Y, fst (snd ?Y), snd (snd ?Y))"
    by simp_all
  have reads: "(3::nat) < 2 ^ 53" "length sample_raws = 3"
    "\<forall>raw\<in>set sample_raws. raw_id raw < 2 ^ 53"
    by (simp_all add: sample_raws_def)
  have upt: "[1..<Suc 3] = [1, 2, 3]"
    by (simp add: upt_rec)
  note first = settlement_triggers_refresh [OF refl session, where w = 1000000000000000000
      and t = 1 and u = VUnit and rs = "[]" and s = ?cl and tr = "[]"
      and s' = "fst ?X" and tr' = "fst (snd ?X)" and p' = "snd (snd ?X)"
      and count = 3 and raws = sample_raws and b = 1500000000000000000
      and price = "''1.5''" and n = 3 and e = "JsError None ''timeout''"]
  note second = settlement_triggers_refresh [OF refl session, where w = 1500000000000000000
      and t = 2 and u = VUnit and s = ?cl and tr = "[]" and price = "''1.5''"
      and n = 3 and count = 3 and raws = sample_raws and b = 1500000000000000000
      and rs = "[]" and s' = "fst ?Y" and tr' = "fst (snd ?Y)" and p' = "snd (snd ?Y)"
      and e = "JsError None ''timeout''"]
  from first form parseEther_one listed known
  have one: "fst ?X = ?cl\<lparr>loading := True, itemName := [], itemPrice := []\<rparr>"
    by - (elim exE conjE, simp)
  from first form parseEther_one reads known
  have two: "exec (listNewItem ?cl)
       (Ok (VTx 1) # Ok VUnit # Ok (VBig 3) # map (\<lambda>raw. Ok (VItem raw)) sample_raws
          @ Ok (VBig 1500000000000000000) # []) ?cl [] =
     (?cl\<lparr>itemName := [], itemPrice := [],
         items := rev (map (\<lambda>raw. to_item raw (raw_id raw)) sample_raws),
         contractBalance := Fixed6 (formatEther 1500000000000000000), loading := False\<rparr>,
      [] @ [Req (ListItem 1 ''pen'' 1000000000000000000), Req (TxWait 1), Req (ItemCount 1)]
         @ map (\<lambda>j. Req (Items 1 j)) [1..<Suc 3]
         @ [Req (GetBalance 0 contractAddress), Note (Alert ''Item listed successfully!'')],
      Done)"
    by - (elim exE conjE, simp del: upt_Suc)
  from second amount reads known
  have three: "exec (buyItem ?cl 3 ''1.5'')
       (Ok (VTx 2) # Ok VUnit # Ok (VBig 3) # map (\<lambda>raw. Ok (VItem raw)) sample_raws
          @ Ok (VBig 1500000000000000000) # []) ?cl [] =
     (?cl\<lparr>items := rev (map (\<lambda>raw. to_item raw (raw_id raw)) sample_raws),
         contractBalance := Fixed6 (formatEther 1500000000000000000), loading := False\<rparr>,
      [] @ [Req (BuyItem 1 3 1500000000000000000), Req (TxWait 2), Req (ItemCount 1)]
         @ map (\<lambda>j. Req (Items 1 j)) [1..<Suc 3]
         @ [Req (GetBalance 0 contractAddress), Note (Alert ''Purchase completed!'')],
      Done)"
    by - (elim exE conjE, simp del: upt_Suc)
  from second amount bought known
  have four: "fst ?Y = ?cl\<lparr>loading := True\<rparr>"
    by - (elim exE conjE, simp)
  show ?thesis
    using one two three four by (simp only: upt) simp
qed

end
